theory Spec2Isabelle
  imports Main
begin

section \<open>Entity store (blog/models.py)\<close>

text \<open>
  Every engagement model of \<^verbatim>\<open>models.py\<close> carries a \<^verbatim>\<open>user\<close> and a \<^verbatim>\<open>blog\<close> foreign key
  and an \<^verbatim>\<open>auto_now_add\<close> timestamp.  \<^verbatim>\<open>Like\<close>, \<^verbatim>\<open>Dislike\<close> and \<^verbatim>\<open>Favorite\<close> have nothing else;
  \<^verbatim>\<open>Rating\<close> adds \<^verbatim>\<open>score\<close>; \<^verbatim>\<open>Comment\<close> adds \<^verbatim>\<open>content\<close> and the self-referential
  \<^verbatim>\<open>parent_comment\<close>, and its primary key \<^verbatim>\<open>id\<close> (here \<open>comment_id\<close>) is read by the views.
  Foreign keys are stored as the primary key of the row they point to.  A table is the
  list of its rows.
\<close>

record row =
  user :: int
  blog :: int
  created_at :: nat

type_synonym Like = row
type_synonym Dislike = row
type_synonym Favorite = row

record Rating = row +
  score :: int

record Comment = row +
  comment_id :: int
  content :: string
  parent_comment :: "int option"

record Blog =
  pk :: int
  title :: string
  author :: int
  published :: bool

record db =
  blogs :: "Blog list"
  likes :: "Like list"
  dislikes :: "Dislike list"
  favorites :: "Favorite list"
  ratings :: "Rating list"
  comments :: "Comment list"
  comment_seq :: int

text \<open>Exceptions that the views do not catch end the request with a server error.\<close>

datatype exn =
  IntegrityError | MultipleObjectsReturned | JSONDecodeError | AttributeError | ValueError

subsection \<open>Query sets\<close>

text \<open>\<^verbatim>\<open>Model.objects.filter(user=u, blog=b)\<close>: the rows of the pair.\<close>

definition by_user_blog :: "int \<Rightarrow> int \<Rightarrow> 'a row_scheme \<Rightarrow> bool" where
  "by_user_blog u b r = (user r = u \<and> blog r = b)"

text \<open>\<^verbatim>\<open>qs.exists()\<close>, \<^verbatim>\<open>qs.count()\<close> and \<^verbatim>\<open>Model.objects.filter(...).delete()\<close>.\<close>

definition exists :: "'a list \<Rightarrow> bool" where
  "exists qs = (qs \<noteq> [])"

definition count :: "'a list \<Rightarrow> int" where
  "count qs = int (length qs)"

definition filter_delete :: "('a \<Rightarrow> bool) \<Rightarrow> 'a list \<Rightarrow> 'a list" where
  "filter_delete P table = filter (\<lambda>r. \<not> P r) table"

text \<open>
  \<^verbatim>\<open>Model.objects.create(user=u, blog=b)\<close> on a model with
  \<^verbatim>\<open>unique_together = ('user', 'blog')\<close>: the store refuses a second row of the pair.
\<close>

definition create :: "'a row_scheme \<Rightarrow> 'a row_scheme list \<Rightarrow> exn + 'a row_scheme list" where
  "create r table =
     (if exists (filter (by_user_blog (user r) (blog r)) table) then Inl IntegrityError
      else Inr (table @ [r]))"

text \<open>\<^verbatim>\<open>Blog.objects.get(pk=pk)\<close>; \<^verbatim>\<open>None\<close> stands for \<^verbatim>\<open>Blog.DoesNotExist\<close>.\<close>

definition get_blog :: "db \<Rightarrow> int \<Rightarrow> Blog option" where
  "get_blog d k = find (\<lambda>b. pk b = k) (blogs d)"

section \<open>Requests and responses\<close>

record auth_user =
  uid :: int
  is_staff :: bool
  email :: string

datatype http_method = GET | POST | OTHER

text \<open>
  The JSON body of the reaction endpoint after \<^verbatim>\<open>json.loads\<close>: a dictionary, or a value of
  another JSON type.  A body that is not JSON is \<^verbatim>\<open>None\<close> in the request.
\<close>

datatype jvalue = JNull | JBool bool | JNum int | JStr string | JNested

datatype jdoc = JDict "(string \<times> jvalue) list" | JNotDict

text \<open>
  The form fields of \<^verbatim>\<open>request.POST\<close> that \<^verbatim>\<open>blog_detail\<close> reads.  The parent id arrives as
  text: absent, empty, text that \<^verbatim>\<open>int()\<close> rejects, or text that it reads as a number.
\<close>

datatype id_param = IdAbsent | IdEmpty | IdNotANumber | IdNumber int

datatype page_param = PageAbsent | PageNotANumber | PageNumber int

record post_data =
  comment_form :: bool
  rating_form :: bool
  content_field :: "string option"
  parent_comment_id :: id_param
  score_field :: "string option"

text \<open>
  \<^verbatim>\<open>request_method\<close> is \<^verbatim>\<open>request.method\<close> and \<open>req_user\<close> is \<^verbatim>\<open>request.user\<close>;
  \<^verbatim>\<open>req_user = None\<close> is the anonymous user (\<^verbatim>\<open>is_authenticated\<close> false); \<^verbatim>\<open>now\<close> is the clock
  reading that \<^verbatim>\<open>auto_now_add\<close> stores in rows created while the request is served.
  \<^verbatim>\<open>order_by('-created_at')\<close> leaves the order of comments with equal time stamps to the
  store; \<open>store_order\<close> is the store's choice while the request is served: among comments
  with equal time stamps, the one with the greater \<open>store_order\<close> comes first.
\<close>

record request =
  request_method :: http_method
  req_user :: "auth_user option"
  body :: "jdoc option"
  POST_data :: post_data
  comment_page :: page_param
  now :: nat
  store_order :: "Comment \<Rightarrow> nat"

datatype level = Success | Error | Warning

type_synonym messages = "(level \<times> string) list"

datatype json_payload =
  JError string
| JSuccess int int "string option"

record detail_context =
  ctx_blog :: Blog
  is_favorited :: bool
  user_rating :: "Rating option"
  ctx_comments :: "Comment list"
  user_liked :: bool
  user_disliked :: bool

datatype response =
  HttpResponseNotAllowed
| JsonResponse nat json_payload
| Http404
| RedirectLogin
| RedirectBlogList
| RedirectBlogDetail int
| RenderDetail detail_context
| RenderConfirmDelete Blog
| ServerError exn

section \<open>Reaction endpoint (views.py, like\_dislike\_post)\<close>

text \<open>\<^verbatim>\<open>data.get('reaction')\<close>: only a dictionary has \<^verbatim>\<open>get\<close>; a missing key gives \<^verbatim>\<open>None\<close>.\<close>

definition data_get :: "jdoc \<Rightarrow> string \<Rightarrow> exn + jvalue option" where
  "data_get data k = (case data of JNotDict \<Rightarrow> Inl AttributeError | JDict kv \<Rightarrow> Inr (map_of kv k))"

text \<open>The branch \<^verbatim>\<open>if reaction == 'like'\<close> (lines 670 to 682).\<close>

definition like_branch :: "int \<Rightarrow> int \<Rightarrow> nat \<Rightarrow> db \<Rightarrow> exn + db" where
  "like_branch u b t d =
     (let like_exists = exists (filter (by_user_blog u b) (likes d));
          dislike_exists = exists (filter (by_user_blog u b) (dislikes d))
      in if like_exists then Inr (d\<lparr>likes := filter_delete (by_user_blog u b) (likes d)\<rparr>)
         else (case create \<lparr>user = u, blog = b, created_at = t\<rparr> (likes d) of
                 Inl e \<Rightarrow> Inl e
               | Inr ls \<Rightarrow>
                   (let d1 = d\<lparr>likes := ls\<rparr>
                    in if dislike_exists
                       then Inr (d1\<lparr>dislikes := filter_delete (by_user_blog u b) (dislikes d1)\<rparr>)
                       else Inr d1)))"

text \<open>The branch \<^verbatim>\<open>elif reaction == 'dislike'\<close> (lines 684 to 696).\<close>

definition dislike_branch :: "int \<Rightarrow> int \<Rightarrow> nat \<Rightarrow> db \<Rightarrow> exn + db" where
  "dislike_branch u b t d =
     (let dislike_exists = exists (filter (by_user_blog u b) (dislikes d));
          like_exists = exists (filter (by_user_blog u b) (likes d))
      in if dislike_exists then Inr (d\<lparr>dislikes := filter_delete (by_user_blog u b) (dislikes d)\<rparr>)
         else (case create \<lparr>user = u, blog = b, created_at = t\<rparr> (dislikes d) of
                 Inl e \<Rightarrow> Inl e
               | Inr ds \<Rightarrow>
                   (let d1 = d\<lparr>dislikes := ds\<rparr>
                    in if like_exists
                       then Inr (d1\<lparr>likes := filter_delete (by_user_blog u b) (likes d1)\<rparr>)
                       else Inr d1)))"

text \<open>The user's current reaction (lines 703 to 707).\<close>

definition user_reaction :: "db \<Rightarrow> int \<Rightarrow> int \<Rightarrow> string option" where
  "user_reaction d u b =
     (if exists (filter (by_user_blog u b) (likes d)) then Some ''like''
      else if exists (filter (by_user_blog u b) (dislikes d)) then Some ''dislike''
      else None)"

text \<open>\<^verbatim>\<open>blog.like_set.count()\<close> and \<^verbatim>\<open>blog.dislike_set.count()\<close>.\<close>

definition likes_count :: "db \<Rightarrow> int \<Rightarrow> int" where
  "likes_count d b = count (filter (\<lambda>r. blog r = b) (likes d))"

definition dislikes_count :: "db \<Rightarrow> int \<Rightarrow> int" where
  "dislikes_count d b = count (filter (\<lambda>r. blog r = b) (dislikes d))"

definition reaction_response :: "db \<Rightarrow> int \<Rightarrow> int \<Rightarrow> response" where
  "reaction_response d u b =
     JsonResponse 200 (JSuccess (likes_count d b) (dislikes_count d b) (user_reaction d u b))"

text \<open>
  The view, under \<^verbatim>\<open>@require_POST\<close>: the method is checked first, then the user, then the
  post; a reaction that is neither \<^verbatim>\<open>'like'\<close> nor \<^verbatim>\<open>'dislike'\<close> goes through no branch.
\<close>

definition like_dislike_post :: "request \<Rightarrow> int \<Rightarrow> db \<Rightarrow> db \<times> response" where
  "like_dislike_post request k d =
     (if request_method request \<noteq> POST then (d, HttpResponseNotAllowed)
      else case req_user request of
        None \<Rightarrow> (d, JsonResponse 403 (JError ''Authentication required''))
      | Some u \<Rightarrow>
         (case get_blog d k of
            None \<Rightarrow> (d, JsonResponse 404 (JError ''Blog post not found''))
          | Some b \<Rightarrow>
             (case body request of
                None \<Rightarrow> (d, ServerError JSONDecodeError)
              | Some data \<Rightarrow>
                 (case data_get data ''reaction'' of
                    Inl e \<Rightarrow> (d, ServerError e)
                  | Inr reaction \<Rightarrow>
                     (case (if reaction = Some (JStr ''like'')
                              then like_branch (uid u) (pk b) (now request) d
                            else if reaction = Some (JStr ''dislike'')
                              then dislike_branch (uid u) (pk b) (now request) d
                            else Inr d) of
                        Inl e \<Rightarrow> (d, ServerError e)
                      | Inr d' \<Rightarrow> (d', reaction_response d' (uid u) (pk b)))))))"


text \<open>A run of the endpoint over a sequence of requests, each with its post id.\<close>

fun run_reactions :: "(request \<times> int) list \<Rightarrow> db \<Rightarrow> db" where
  "run_reactions [] d = d"
| "run_reactions ((request, k) # rest) d = run_reactions rest (fst (like_dislike_post request k d))"

subsection \<open>The state machine of the specification\<close>

text \<open>
  The three states and the two transition functions, written from the words of the
  specification: \<open>toggleLike\<close> takes none to liked, liked to none and disliked to liked;
  \<open>toggleDislike\<close> is the mirror.
\<close>

datatype reaction_state = NoReaction | Liked | Disliked

fun toggleLike_spec :: "reaction_state \<Rightarrow> reaction_state" where
  "toggleLike_spec NoReaction = Liked"
| "toggleLike_spec Liked = NoReaction"
| "toggleLike_spec Disliked = Liked"

fun toggleDislike_spec :: "reaction_state \<Rightarrow> reaction_state" where
  "toggleDislike_spec NoReaction = Disliked"
| "toggleDislike_spec Disliked = NoReaction"
| "toggleDislike_spec Liked = Disliked"

text \<open>What the two tables hold for a pair.\<close>

definition has_like :: "db \<Rightarrow> int \<Rightarrow> int \<Rightarrow> bool" where
  "has_like d u b = exists (filter (by_user_blog u b) (likes d))"

definition has_dislike :: "db \<Rightarrow> int \<Rightarrow> int \<Rightarrow> bool" where
  "has_dislike d u b = exists (filter (by_user_blog u b) (dislikes d))"

text \<open>The state of a pair; a pair with both a Like and a Dislike row has none of the three.\<close>

definition pair_state :: "db \<Rightarrow> int \<Rightarrow> int \<Rightarrow> reaction_state option" where
  "pair_state d u b =
     (if has_like d u b then (if has_dislike d u b then None else Some Liked)
      else if has_dislike d u b then Some Disliked else Some NoReaction)"

text \<open>No pair of the store is in both tables.\<close>

definition never_both :: "db \<Rightarrow> bool" where
  "never_both d = (\<forall>r \<in> set (likes d). \<not> has_dislike d (user r) (blog r))"

text \<open>A request that reaches one of the two branches for user \<open>u\<close> on post \<open>b\<close>.\<close>

definition reaction_request :: "request \<Rightarrow> int \<Rightarrow> string \<Rightarrow> bool" where
  "reaction_request request u kind =
     (request_method request = POST \<and> map_option uid (req_user request) = Some u \<and>
      (case body request of
         Some (JDict kv) \<Rightarrow> map_of kv ''reaction'' = Some (JStr kind)
       | _ \<Rightarrow> False))"

text \<open>\<^verbatim>\<open>unique_together = ('user', 'blog')\<close> as a property of a table.\<close>

definition unique_together :: "'a row_scheme list \<Rightarrow> bool" where
  "unique_together table = distinct (map (\<lambda>r. (user r, blog r)) table)"

section \<open>Favorites (views.py, toggle\_favorite)\<close>

text \<open>
  \<^verbatim>\<open>Favorite.objects.get_or_create(user=u, blog=b)\<close>: the row of the pair and \<^verbatim>\<open>False\<close>, or a new
  row and \<^verbatim>\<open>True\<close>; more than one row of the pair raises.
\<close>

definition get_or_create :: "int \<Rightarrow> int \<Rightarrow> nat \<Rightarrow> Favorite list \<Rightarrow> exn + (Favorite list \<times> Favorite \<times> bool)" where
  "get_or_create u b t table =
     (case filter (by_user_blog u b) table of
        [] \<Rightarrow> (case create \<lparr>user = u, blog = b, created_at = t\<rparr> table of
                 Inl e \<Rightarrow> Inl e
               | Inr table' \<Rightarrow> Inr (table', \<lparr>user = u, blog = b, created_at = t\<rparr>, True))
      | [r] \<Rightarrow> Inr (table, r, False)
      | _ \<Rightarrow> Inl MultipleObjectsReturned)"

text \<open>
  The view, under \<^verbatim>\<open>@login_required\<close>.  \<open>mail_sent\<close> tells whether \<^verbatim>\<open>send_mail\<close> returns;
  when it raises, the view catches the exception and adds a warning.  \<^verbatim>\<open>favorite.delete()\<close>
  deletes the one row that \<^verbatim>\<open>get_or_create\<close> returned.
\<close>

definition toggle_favorite :: "bool \<Rightarrow> request \<Rightarrow> int \<Rightarrow> db \<Rightarrow> db \<times> messages \<times> response" where
  "toggle_favorite mail_sent request k d =
     (case req_user request of
        None \<Rightarrow> (d, [], RedirectLogin)
      | Some u \<Rightarrow>
         (case get_blog d k of
            None \<Rightarrow> (d, [], Http404)
          | Some b \<Rightarrow>
             (case get_or_create (uid u) (pk b) (now request) (favorites d) of
                Inl e \<Rightarrow> (d, [], ServerError e)
              | Inr (table, favorite, created) \<Rightarrow>
                  if \<not> created
                  then (d\<lparr>favorites := filter_delete (by_user_blog (user favorite) (blog favorite)) table\<rparr>,
                        [(Success, ''Removed from favorites.'')],
                        RedirectBlogDetail (pk b))
                  else (d\<lparr>favorites := table\<rparr>,
                        (Success, ''Added to favorites!'') #
                          (if mail_sent then []
                           else [(Warning, ''Blog was added to favorites, but we could not send you an email confirmation.'')]),
                        RedirectBlogDetail (pk b)))))"

section \<open>Post page (views.py, blog\_detail)\<close>

subsection \<open>Forms (forms.py)\<close>

text \<open>
  \<^verbatim>\<open>CommentForm\<close>: the one field \<^verbatim>\<open>content\<close> is required; its text is stripped of leading and
  trailing white space (\<^verbatim>\<open>str.strip()\<close>), and must be non-empty and free of null characters.
  A \<open>char\<close> is a code point below 256; the white space of \<^verbatim>\<open>str.strip()\<close> among these is
  the tab to carriage return range, the four separators from 0x1C, the space, the next-line
  character 0x85 and the no-break space 0xA0.
\<close>

definition is_space :: "char \<Rightarrow> bool" where
  "is_space c = (c \<in> set [CHR 0x09, CHR 0x0A, CHR 0x0B, CHR 0x0C, CHR 0x0D,
                           CHR 0x1C, CHR 0x1D, CHR 0x1E, CHR 0x1F, CHR 0x20,
                           CHR 0x85, CHR 0xA0])"

definition strip :: "string \<Rightarrow> string" where
  "strip s = rev (dropWhile is_space (rev (dropWhile is_space s)))"

definition CommentForm_clean :: "post_data \<Rightarrow> string option" where
  "CommentForm_clean p =
     (case content_field p of
        None \<Rightarrow> None
      | Some s \<Rightarrow> (let v = strip s in if v = [] \<or> CHR 0x00 \<in> set v then None else Some v))"

text \<open>
  \<^verbatim>\<open>RatingForm\<close>: \<^verbatim>\<open>score\<close> is a choice among \<^verbatim>\<open>RATING_CHOICES = [(i, i) for i in range(1, 6)]\<close>;
  the submitted text must be one of the five keys, and is stored as that integer.
\<close>

definition RATING_CHOICES :: "(string \<times> int) list" where
  "RATING_CHOICES = [(''1'', 1), (''2'', 2), (''3'', 3), (''4'', 4), (''5'', 5)]"

definition RatingForm_clean :: "post_data \<Rightarrow> int option" where
  "RatingForm_clean p = (case score_field p of None \<Rightarrow> None | Some s \<Rightarrow> map_of RATING_CHOICES s)"

subsection \<open>Queries of the view\<close>

text \<open>
  \<^verbatim>\<open>Rating.objects.get(user=u, blog=b)\<close> inside \<^verbatim>\<open>try ... except Rating.DoesNotExist: pass\<close>.
\<close>

definition get_rating :: "db \<Rightarrow> int \<Rightarrow> int \<Rightarrow> exn + Rating option" where
  "get_rating d u b =
     (case filter (by_user_blog u b) (ratings d) of
        [] \<Rightarrow> Inr None
      | [r] \<Rightarrow> Inr (Some r)
      | _ \<Rightarrow> Inl MultipleObjectsReturned)"

text \<open>\<^verbatim>\<open>Comment.objects.get(id=n)\<close>; \<^verbatim>\<open>None\<close> stands for \<^verbatim>\<open>Comment.DoesNotExist\<close>.\<close>

definition get_comment :: "db \<Rightarrow> int \<Rightarrow> Comment option" where
  "get_comment d n = find (\<lambda>c. comment_id c = n) (comments d)"

text \<open>
  \<^verbatim>\<open>Rating.objects.update_or_create(user=u, blog=b, defaults={'score': s})\<close>: the row of the
  pair gets the score, or a new row is created.
\<close>

definition update_or_create :: "int \<Rightarrow> int \<Rightarrow> int \<Rightarrow> nat \<Rightarrow> Rating list \<Rightarrow> exn + Rating list" where
  "update_or_create u b s t table =
     (case filter (by_user_blog u b) table of
        [] \<Rightarrow> create \<lparr>user = u, blog = b, created_at = t, score = s\<rparr> table
      | [r] \<Rightarrow> Inr (map (\<lambda>x. if by_user_blog u b x then x\<lparr>score := s\<rparr> else x) table)
      | _ \<Rightarrow> Inl MultipleObjectsReturned)"

text \<open>\<^verbatim>\<open>new_comment.save()\<close>: the next primary key and the clock reading of the request.\<close>

definition save_comment :: "int \<Rightarrow> int \<Rightarrow> string \<Rightarrow> int option \<Rightarrow> nat \<Rightarrow> db \<Rightarrow> db" where
  "save_comment b u text parent t d =
     d\<lparr>comments := comments d @
          [\<lparr>user = u, blog = b, created_at = t, comment_id = comment_seq d, content = text,
            parent_comment = parent\<rparr>],
       comment_seq := comment_seq d + 1\<rparr>"

text \<open>
  \<^verbatim>\<open>order_by('-created_at')\<close>: newest first.  Rows with equal time stamps come in the order
  the store chooses, given by \<open>rank\<close>: the rows are put in the order of \<open>rank\<close>, then sorted
  by time stamp with a stable sort, and the result is reversed.
\<close>

definition order_by_created_desc :: "('a row_scheme \<Rightarrow> nat) \<Rightarrow> 'a row_scheme list \<Rightarrow> 'a row_scheme list" where
  "order_by_created_desc rank qs = rev (sort_key created_at (sort_key rank qs))"

text \<open>
  \<^verbatim>\<open>Comment.objects.filter(blog=blog, parent_comment=None).order_by('-created_at')\<close> (line 185).
\<close>

definition top_level_comments :: "(Comment \<Rightarrow> nat) \<Rightarrow> db \<Rightarrow> int \<Rightarrow> Comment list" where
  "top_level_comments rank d b =
     order_by_created_desc rank (filter (\<lambda>c. blog c = b \<and> parent_comment c = None) (comments d))"

subsection \<open>Pagination\<close>

text \<open>
  \<^verbatim>\<open>Paginator(object_list, per_page)\<close> of the framework: an empty list has one (empty)
  page; \<^verbatim>\<open>page(n)\<close> raises \<^verbatim>\<open>PageNotAnInteger\<close> for a page that is not a number and
  \<^verbatim>\<open>EmptyPage\<close> for a number below 1 or above \<^verbatim>\<open>num_pages\<close>.
\<close>

datatype page_exn = PageNotAnInteger | EmptyPage

definition num_pages :: "'a list \<Rightarrow> nat \<Rightarrow> nat" where
  "num_pages object_list per_page =
     (if object_list = [] then 1 else (length object_list + per_page - 1) div per_page)"

definition paginator_page :: "'a list \<Rightarrow> nat \<Rightarrow> page_param \<Rightarrow> page_exn + 'a list" where
  "paginator_page object_list per_page p =
     (case p of
        PageAbsent \<Rightarrow> Inl PageNotAnInteger
      | PageNotANumber \<Rightarrow> Inl PageNotAnInteger
      | PageNumber n \<Rightarrow>
          if n < 1 then Inl EmptyPage
          else if n > int (num_pages object_list per_page) then Inl EmptyPage
          else Inr (take per_page (drop ((nat n - 1) * per_page) object_list)))"

text \<open>Lines 188 to 198: first page when the page is not a number, last page when out of range.\<close>

definition comments_page :: "'a list \<Rightarrow> page_param \<Rightarrow> 'a list" where
  "comments_page object_list p =
     (case paginator_page object_list 10 p of
        Inr page \<Rightarrow> page
      | Inl PageNotAnInteger \<Rightarrow>
          (case paginator_page object_list 10 (PageNumber 1) of Inr page \<Rightarrow> page | Inl _ \<Rightarrow> [])
      | Inl EmptyPage \<Rightarrow>
          (case paginator_page object_list 10 (PageNumber (int (num_pages object_list 10))) of
             Inr page \<Rightarrow> page | Inl _ \<Rightarrow> []))"

subsection \<open>The view\<close>

text \<open>
  Lines 145 to 168, the comment form.  \<^verbatim>\<open>Some\<close> is a \<^verbatim>\<open>return\<close> of the view; \<^verbatim>\<open>None\<close> with the
  messages added so far means that the view goes on.
\<close>

definition comment_submission :: "request \<Rightarrow> Blog \<Rightarrow> db \<Rightarrow> (db \<times> messages \<times> response) option \<times> messages" where
  "comment_submission request b d =
     (if request_method request = POST \<and> comment_form (POST_data request) then
        (case (CommentForm_clean (POST_data request), req_user request) of
           (Some text, Some u) \<Rightarrow>
             (case parent_comment_id (POST_data request) of
                IdAbsent \<Rightarrow>
                  (Some (save_comment (pk b) (uid u) text None (now request) d,
                         [(Success, ''Your comment has been posted!'')], RedirectBlogDetail (pk b)), [])
              | IdEmpty \<Rightarrow>
                  (Some (save_comment (pk b) (uid u) text None (now request) d,
                         [(Success, ''Your comment has been posted!'')], RedirectBlogDetail (pk b)), [])
              | IdNotANumber \<Rightarrow> (Some (d, [], ServerError ValueError), [])
              | IdNumber n \<Rightarrow>
                  (case get_comment d n of
                     None \<Rightarrow>
                       (Some (d, [(Error, ''Invalid comment to reply to.'')], RedirectBlogDetail (pk b)), [])
                   | Some parent \<Rightarrow>
                       (Some (save_comment (pk b) (uid u) text (Some (comment_id parent)) (now request) d,
                              [(Success, ''Your comment has been posted!'')], RedirectBlogDetail (pk b)), [])))
         | _ \<Rightarrow> (None, [(Error, ''There was an error posting your comment.'')]))
      else (None, []))"

text \<open>Lines 171 to 182, the rating form.\<close>

definition rating_submission :: "request \<Rightarrow> Blog \<Rightarrow> db \<Rightarrow> (db \<times> messages \<times> response) option" where
  "rating_submission request b d =
     (case req_user request of
        Some u \<Rightarrow>
          if request_method request = POST \<and> rating_form (POST_data request) then
            (case RatingForm_clean (POST_data request) of
               Some s \<Rightarrow>
                 (case update_or_create (uid u) (pk b) s (now request) (ratings d) of
                    Inl e \<Rightarrow> Some (d, [], ServerError e)
                  | Inr table \<Rightarrow>
                      Some (d\<lparr>ratings := table\<rparr>, [(Success, ''Your rating has been saved!'')],
                            RedirectBlogDetail (pk b)))
             | None \<Rightarrow> None)
          else None
      | None \<Rightarrow> None)"

text \<open>
  The whole view.  Of the template context, the two form objects and the side bar of
  recent posts are left out.
\<close>

definition blog_detail :: "request \<Rightarrow> int \<Rightarrow> db \<Rightarrow> db \<times> messages \<times> response" where
  "blog_detail request k d =
     (case get_blog d k of
        None \<Rightarrow> (d, [], Http404)
      | Some b \<Rightarrow>
         (case (case req_user request of
                  None \<Rightarrow> Inr None
                | Some u \<Rightarrow> get_rating d (uid u) (pk b)) of
            Inl e \<Rightarrow> (d, [], ServerError e)
          | Inr rating \<Rightarrow>
             (case comment_submission request b d of
                (Some result, _) \<Rightarrow> result
              | (None, msgs) \<Rightarrow>
                 (case rating_submission request b d of
                    Some (d', msgs', resp) \<Rightarrow> (d', msgs @ msgs', resp)
                  | None \<Rightarrow>
                     (d, msgs,
                      RenderDetail
                        \<lparr>ctx_blog = b,
                         is_favorited =
                           (case req_user request of None \<Rightarrow> False
                            | Some u \<Rightarrow> exists (filter (by_user_blog (uid u) (pk b)) (favorites d))),
                         user_rating = rating,
                         ctx_comments =
                           comments_page (top_level_comments (store_order request) d (pk b))
                             (comment_page request),
                         user_liked =
                           (case req_user request of None \<Rightarrow> False
                            | Some u \<Rightarrow> exists (filter (by_user_blog (uid u) (pk b)) (likes d))),
                         user_disliked =
                           (case req_user request of None \<Rightarrow> False
                            | Some u \<Rightarrow> exists (filter (by_user_blog (uid u) (pk b)) (dislikes d)))\<rparr>)))))"

text \<open>A request that submits the rating form, and not a valid comment form, as user \<open>u\<close>.\<close>

definition rating_request :: "request \<Rightarrow> int \<Rightarrow> int \<Rightarrow> bool" where
  "rating_request request u s =
     (request_method request = POST \<and> map_option uid (req_user request) = Some u \<and>
      rating_form (POST_data request) \<and> RatingForm_clean (POST_data request) = Some s \<and>
      \<not> (comment_form (POST_data request) \<and> CommentForm_clean (POST_data request) \<noteq> None))"

text \<open>A request that submits a valid comment form as user \<open>u\<close>, with cleaned text \<open>text\<close>.\<close>

definition comment_request :: "request \<Rightarrow> int \<Rightarrow> string \<Rightarrow> bool" where
  "comment_request request u text =
     (request_method request = POST \<and> map_option uid (req_user request) = Some u \<and>
      comment_form (POST_data request) \<and> CommentForm_clean (POST_data request) = Some text)"

section \<open>Deleting a post (views.py, blog\_delete)\<close>









section \<open>Example data\<close>

text \<open>Two users, two posts and a few requests, for evaluating the views on concrete stores.\<close>

definition alice :: auth_user where
  "alice = \<lparr>uid = 1, is_staff = False, email = ''alice@example.org''\<rparr>"

definition bob :: auth_user where
  "bob = \<lparr>uid = 2, is_staff = False, email = ''bob@example.org''\<rparr>"

definition no_form :: post_data where
  "no_form = \<lparr>comment_form = False, rating_form = False, content_field = None,
              parent_comment_id = IdAbsent, score_field = None\<rparr>"

definition plain_request :: "http_method \<Rightarrow> auth_user option \<Rightarrow> nat \<Rightarrow> request" where
  "plain_request m u t =
     \<lparr>request_method = m, req_user = u, body = None, POST_data = no_form, comment_page = PageAbsent,
      now = t, store_order = (\<lambda>c. 0)\<rparr>"

definition reaction_by :: "auth_user \<Rightarrow> string \<Rightarrow> nat \<Rightarrow> request" where
  "reaction_by u kind t = (plain_request POST (Some u) t)\<lparr>body := Some (JDict [(''reaction'', JStr kind)])\<rparr>"

definition two_posts :: db where
  "two_posts =
     \<lparr>blogs = [\<lparr>pk = 1, title = ''First'', author = 1, published = True\<rparr>,
               \<lparr>pk = 2, title = ''Second'', author = 2, published = True\<rparr>],
      likes = [], dislikes = [], favorites = [], ratings = [], comments = [], comment_seq = 1\<rparr>"

definition rating_by :: "auth_user \<Rightarrow> string \<Rightarrow> nat \<Rightarrow> request" where
  "rating_by u s t =
     (plain_request POST (Some u) t)\<lparr>POST_data := no_form\<lparr>rating_form := True, score_field := Some s\<rparr>\<rparr>"

text \<open>A text between a no-break space and a next-line character followed by a space.\<close>

definition padded :: "string \<Rightarrow> string" where
  "padded s = CHR 0xA0 # s @ [CHR 0x85, CHR 0x20]"

definition comment_by :: "auth_user \<Rightarrow> string \<Rightarrow> id_param \<Rightarrow> nat \<Rightarrow> request" where
  "comment_by u text parent t =
     (plain_request POST (Some u) t)
       \<lparr>POST_data := no_form\<lparr>comment_form := True, content_field := Some text,
                              parent_comment_id := parent\<rparr>\<rparr>"

text \<open>Bob comments on post 2, then Alice replies to that comment from the page of post 1.\<close>

definition cross_post_reply :: db where
  "cross_post_reply =
     fst (blog_detail (comment_by alice ''I disagree'' (IdNumber 1) 6) 1
            (fst (blog_detail (comment_by bob ''Hello'' IdAbsent 5) 2 two_posts)))"

definition page_view :: "auth_user option \<Rightarrow> page_param \<Rightarrow> request" where
  "page_view u p = (plain_request GET u 0)\<lparr>comment_page := p\<rparr>"

text \<open>Post 1 with two top-level comments and one reply, post 2 with one comment.\<close>

definition thread_db :: db where
  "thread_db =
     two_posts\<lparr>comments :=
       [\<lparr>user = 1, blog = 1, created_at = 5, comment_id = 1, content = ''One'', parent_comment = None\<rparr>,
        \<lparr>user = 2, blog = 1, created_at = 6, comment_id = 2, content = ''Two'', parent_comment = Some 1\<rparr>,
        \<lparr>user = 2, blog = 2, created_at = 7, comment_id = 3, content = ''Three'', parent_comment = None\<rparr>,
        \<lparr>user = 2, blog = 1, created_at = 8, comment_id = 4, content = ''Four'', parent_comment = None\<rparr>],
       comment_seq := 5\<rparr>"

text \<open>Post 1 liked by Bob and Carol and disliked by Alice.\<close>

definition carol :: auth_user where
  "carol = \<lparr>uid = 3, is_staff = False, email = ''carol@example.org''\<rparr>"

definition three_reactions :: db where
  "three_reactions =
     run_reactions [(reaction_by bob ''like'' 4, 1), (reaction_by carol ''like'' 5, 1),
                    (reaction_by alice ''dislike'' 6, 1)] two_posts"

text \<open>
  Two choices of the store for comments with equal time stamps, and the example thread
  with a fifth comment that has the time stamp of the fourth.
\<close>

definition by_id :: "Comment \<Rightarrow> nat" where
  "by_id c = nat (comment_id c)"

definition by_id_reversed :: "Comment \<Rightarrow> nat" where
  "by_id_reversed c = nat (10 - comment_id c)"

definition tied_thread :: db where
  "tied_thread =
     thread_db\<lparr>comments := comments thread_db @
       [\<lparr>user = 1, blog = 1, created_at = 8, comment_id = 5, content = ''Five'', parent_comment = None\<rparr>],
       comment_seq := 6\<rparr>"

section \<open>Properties of the reaction endpoint\<close>

lemma exists_filter_iff: "exists (filter P xs) \<longleftrightarrow> (\<exists>x \<in> set xs. P x)"
  by (simp add: exists_def filter_empty_conv)

lemma filter_delete_absent: "\<not> exists (filter P xs) \<Longrightarrow> filter_delete P xs = xs"
  by (simp add: exists_filter_iff filter_delete_def)

lemma has_like_iff: "has_like d u b \<longleftrightarrow> (\<exists>r \<in> set (likes d). user r = u \<and> blog r = b)"
  by (simp add: has_like_def exists_filter_iff by_user_blog_def)

lemma has_dislike_iff: "has_dislike d u b \<longleftrightarrow> (\<exists>r \<in> set (dislikes d). user r = u \<and> blog r = b)"
  by (simp add: has_dislike_def exists_filter_iff by_user_blog_def)

lemma never_both_iff: "never_both d \<longleftrightarrow> (\<forall>u b. \<not> (has_like d u b \<and> has_dislike d u b))"
  by (auto simp: never_both_def has_like_iff)

lemma like_branch_eq:
  "like_branch u b t d =
     Inr (if has_like d u b then d\<lparr>likes := filter_delete (by_user_blog u b) (likes d)\<rparr>
          else d\<lparr>likes := likes d @ [\<lparr>user = u, blog = b, created_at = t\<rparr>],
                 dislikes := filter_delete (by_user_blog u b) (dislikes d)\<rparr>)"
  by (simp add: like_branch_def has_like_def create_def Let_def filter_delete_absent)

lemma dislike_branch_eq:
  "dislike_branch u b t d =
     Inr (if has_dislike d u b then d\<lparr>dislikes := filter_delete (by_user_blog u b) (dislikes d)\<rparr>
          else d\<lparr>dislikes := dislikes d @ [\<lparr>user = u, blog = b, created_at = t\<rparr>],
                 likes := filter_delete (by_user_blog u b) (likes d)\<rparr>)"
  by (simp add: dislike_branch_def has_dislike_def create_def Let_def filter_delete_absent)

lemma like_branch_has_like:
  assumes "like_branch u b t d = Inr d'"
  shows "has_like d' u' b' = (if u' = u \<and> b' = b then \<not> has_like d u b else has_like d u' b')"
  using assms unfolding like_branch_eq
  by (auto simp: has_like_iff filter_delete_def by_user_blog_def split: if_splits)

lemma like_branch_has_dislike:
  assumes "like_branch u b t d = Inr d'"
  shows "has_dislike d' u' b' =
           (if u' = u \<and> b' = b then has_like d u b \<and> has_dislike d u b else has_dislike d u' b')"
  using assms unfolding like_branch_eq
  by (auto simp: has_dislike_iff filter_delete_def by_user_blog_def split: if_splits)

lemma dislike_branch_has_dislike:
  assumes "dislike_branch u b t d = Inr d'"
  shows "has_dislike d' u' b' = (if u' = u \<and> b' = b then \<not> has_dislike d u b else has_dislike d u' b')"
  using assms unfolding dislike_branch_eq
  by (auto simp: has_dislike_iff filter_delete_def by_user_blog_def split: if_splits)

lemma dislike_branch_has_like:
  assumes "dislike_branch u b t d = Inr d'"
  shows "has_like d' u' b' =
           (if u' = u \<and> b' = b then has_like d u b \<and> has_dislike d u b else has_like d u' b')"
  using assms unfolding dislike_branch_eq
  by (auto simp: has_like_iff filter_delete_def by_user_blog_def split: if_splits)

lemma like_branch_never_both:
  "never_both d \<Longrightarrow> like_branch u b t d = Inr d' \<Longrightarrow> never_both d'"
  unfolding never_both_iff
  by (simp add: like_branch_has_like like_branch_has_dislike)

lemma dislike_branch_never_both:
  "never_both d \<Longrightarrow> dislike_branch u b t d = Inr d' \<Longrightarrow> never_both d'"
  unfolding never_both_iff
  by (simp add: dislike_branch_has_like dislike_branch_has_dislike)

lemma get_blog_pk: "get_blog d k = Some b \<Longrightarrow> pk b = k"
  by (auto simp: get_blog_def find_Some_iff)

lemma like_dislike_post_never_both:
  "never_both d \<Longrightarrow> never_both (fst (like_dislike_post request k d))"
  by (auto simp: like_dislike_post_def split: option.splits sum.splits if_splits
           intro: like_branch_never_both dislike_branch_never_both)

lemma run_reactions_never_both:
  "never_both d \<Longrightarrow> never_both (run_reactions rs d)"
  by (induction rs d rule: run_reactions.induct) (simp_all add: like_dislike_post_never_both)

lemma like_request_step:
  assumes "reaction_request request u ''like''" and "get_blog d k \<noteq> None"
  shows "like_branch u k (now request) d = Inr (fst (like_dislike_post request k d))"
  using assms
  by (auto simp: reaction_request_def like_dislike_post_def data_get_def like_branch_eq
           dest: get_blog_pk split: option.splits jdoc.splits)

lemma dislike_request_step:
  assumes "reaction_request request u ''dislike''" and "get_blog d k \<noteq> None"
  shows "dislike_branch u k (now request) d = Inr (fst (like_dislike_post request k d))"
  using assms
  by (auto simp: reaction_request_def like_dislike_post_def data_get_def dislike_branch_eq
           dest: get_blog_pk split: option.splits jdoc.splits)

lemma like_branch_pair_state:
  assumes "like_branch u b t d = Inr d'" and "pair_state d u b = Some s"
  shows "pair_state d' u b = Some (toggleLike_spec s)"
  using assms(2)
  by (auto simp: pair_state_def like_branch_has_like [OF assms(1)]
        like_branch_has_dislike [OF assms(1)] split: if_splits)

lemma dislike_branch_pair_state:
  assumes "dislike_branch u b t d = Inr d'" and "pair_state d u b = Some s"
  shows "pair_state d' u b = Some (toggleDislike_spec s)"
  using assms(2)
  by (auto simp: pair_state_def dislike_branch_has_like [OF assms(1)]
        dislike_branch_has_dislike [OF assms(1)] split: if_splits)

lemma never_both_pair_state: "never_both d \<Longrightarrow> \<exists>s. pair_state d u b = Some s"
  by (auto simp: never_both_iff pair_state_def)

lemmas reaction_eval =
  alice_def bob_def no_form_def plain_request_def reaction_by_def two_posts_def
  like_dislike_post_def data_get_def like_branch_def dislike_branch_def create_def exists_def
  filter_delete_def by_user_blog_def get_blog_def pair_state_def has_like_def has_dislike_def
  never_both_def reaction_request_def likes_count_def dislikes_count_def count_def
  user_reaction_def reaction_response_def unique_together_def Let_def

text \<open>
  Claim C1.  After any sequence of requests to the endpoint, starting from a store in which
  no pair is both liked and disliked, no pair is both liked and disliked; and on an
  existing post the pair of the acting user is in one of the three states of the
  specification, a \<^verbatim>\<open>'like'\<close> request moves it as \<open>toggleLike\<close> does (none to liked, liked to
  none, disliked to liked) and a \<^verbatim>\<open>'dislike'\<close> request as \<open>toggleDislike\<close> does.
\<close>

theorem reaction_state_machine:
  assumes "never_both d0"
  shows "never_both (run_reactions rs d0) \<and>
         (get_blog (run_reactions rs d0) k \<noteq> None \<longrightarrow>
            (\<exists>s. pair_state (run_reactions rs d0) u k = Some s \<and>
               (reaction_request request u ''like'' \<longrightarrow>
                  pair_state (fst (like_dislike_post request k (run_reactions rs d0))) u k
                    = Some (toggleLike_spec s)) \<and>
               (reaction_request request u ''dislike'' \<longrightarrow>
                  pair_state (fst (like_dislike_post request k (run_reactions rs d0))) u k
                    = Some (toggleDislike_spec s))))"
proof -
  let ?d = "run_reactions rs d0"
  have inv: "never_both ?d"
    using assms by (rule run_reactions_never_both)
  obtain s where s: "pair_state ?d u k = Some s"
    using never_both_pair_state [OF inv] by blast
  have "pair_state (fst (like_dislike_post request k ?d)) u k = Some (toggleLike_spec s)"
    if "reaction_request request u ''like''" and "get_blog ?d k \<noteq> None"
    using like_branch_pair_state [OF like_request_step [OF that] s] .
  moreover have "pair_state (fst (like_dislike_post request k ?d)) u k = Some (toggleDislike_spec s)"
    if "reaction_request request u ''dislike''" and "get_blog ?d k \<noteq> None"
    using dislike_branch_pair_state [OF dislike_request_step [OF that] s] .
  ultimately show ?thesis
    using inv s by blast
qed

text \<open>
  The theorem at a store where Bob likes post 1 and Alice has just disliked it: her
  \<^verbatim>\<open>'like'\<close> request makes the pair liked, her \<^verbatim>\<open>'dislike'\<close> request makes it none.
\<close>

theorem reaction_state_machine_witness:
  "never_both (fst (like_dislike_post (reaction_by bob ''like'' 4) 1 two_posts)) \<and>
   never_both (run_reactions [(reaction_by alice ''dislike'' 5, 1)]
                 (fst (like_dislike_post (reaction_by bob ''like'' 4) 1 two_posts))) \<and>
   pair_state (fst (like_dislike_post (reaction_by alice ''like'' 6) 1
                 (run_reactions [(reaction_by alice ''dislike'' 5, 1)]
                    (fst (like_dislike_post (reaction_by bob ''like'' 4) 1 two_posts))))) 1 1
     = Some Liked \<and>
   pair_state (fst (like_dislike_post (reaction_by alice ''dislike'' 6) 1
                 (run_reactions [(reaction_by alice ''dislike'' 5, 1)]
                    (fst (like_dislike_post (reaction_by bob ''like'' 4) 1 two_posts))))) 1 1
     = Some NoReaction"
proof -
  let ?init = "fst (like_dislike_post (reaction_by bob ''like'' 4) 1 two_posts)"
  let ?d = "run_reactions [(reaction_by alice ''dislike'' 5, 1)] ?init"
  have inv: "never_both ?init"
    by (simp add: reaction_eval)
  have blog: "get_blog ?d 1 \<noteq> None"
    by (simp add: reaction_eval)
  have st: "pair_state ?d 1 1 = Some Disliked"
    by (simp add: reaction_eval)
  have l: "reaction_request (reaction_by alice ''like'' 6) 1 ''like''"
    by (simp add: reaction_eval)
  have dl: "reaction_request (reaction_by alice ''dislike'' 6) 1 ''dislike''"
    by (simp add: reaction_eval)
  from reaction_state_machine [OF inv, where rs = "[(reaction_by alice ''dislike'' 5, 1)]" and k = 1 and u = 1
      and request = "reaction_by alice ''like'' 6"]
    blog st l
  have a: "pair_state (fst (like_dislike_post (reaction_by alice ''like'' 6) 1 ?d)) 1 1 = Some Liked"
    by auto
  from reaction_state_machine [OF inv, where rs = "[(reaction_by alice ''dislike'' 5, 1)]" and k = 1 and u = 1
      and request = "reaction_by alice ''dislike'' 6"]
    blog st dl
  have b: "pair_state (fst (like_dislike_post (reaction_by alice ''dislike'' 6) 1 ?d)) 1 1 = Some NoReaction
           \<and> never_both ?d"
    by auto
  from inv a b show ?thesis by blast
qed

text \<open>
  Claim C8.  A POST request without an authenticated user is answered with status 403 and
  the message \<^verbatim>\<open>Authentication required\<close>; one from an authenticated user for a post that
  does not exist with status 404 and the message \<^verbatim>\<open>Blog post not found\<close>.  The user is
  checked before the post, so an anonymous request for a missing post gets the 403.  In
  every one of these cases the answer is an error and the store is returned as it was, so
  no Like or Dislike row of any pair changes.
\<close>

theorem reaction_rejections:
  assumes "request_method request = POST"
  shows "(req_user request = None \<longrightarrow>
            like_dislike_post request k d = (d, JsonResponse 403 (JError ''Authentication required''))) \<and>
         (req_user request \<noteq> None \<and> get_blog d k = None \<longrightarrow>
            like_dislike_post request k d = (d, JsonResponse 404 (JError ''Blog post not found''))) \<and>
         (req_user request = None \<or> get_blog d k = None \<longrightarrow>
            fst (like_dislike_post request k d) = d \<and>
            (\<exists>status message. snd (like_dislike_post request k d) = JsonResponse status (JError message)))"
  using assms by (cases "req_user request") (auto simp: like_dislike_post_def)

text \<open>
  An anonymous request for post 1, Alice's request for the missing post 9, and an
  anonymous request for the missing post 9.
\<close>

theorem reaction_rejections_witness:
  "like_dislike_post (plain_request POST None 3) 1 two_posts
     = (two_posts, JsonResponse 403 (JError ''Authentication required'')) \<and>
   like_dislike_post (reaction_by alice ''like'' 3) 9 two_posts
     = (two_posts, JsonResponse 404 (JError ''Blog post not found'')) \<and>
   like_dislike_post (plain_request POST None 3) 9 two_posts
     = (two_posts, JsonResponse 403 (JError ''Authentication required'')) \<and>
   fst (like_dislike_post (plain_request POST None 3) 9 two_posts) = two_posts"
proof -
  have m1: "request_method (plain_request POST None 3) = POST"
    and u1: "req_user (plain_request POST None 3) = None"
    by (simp_all add: plain_request_def)
  have m2: "request_method (reaction_by alice ''like'' 3) = POST"
    and u2: "req_user (reaction_by alice ''like'' 3) \<noteq> None"
    by (simp_all add: plain_request_def reaction_by_def)
  have nb: "get_blog two_posts 9 = None"
    by (simp add: get_blog_def two_posts_def)
  from reaction_rejections [OF m1, where k = 1 and d = two_posts] u1
    reaction_rejections [OF m2, where k = 9 and d = two_posts] u2 nb
    reaction_rejections [OF m1, where k = 9 and d = two_posts]
  show ?thesis by blast
qed

text \<open>
  Claim C10.  When an authenticated user posts to an existing post a JSON dictionary whose
  \<^verbatim>\<open>reaction\<close> is neither \<^verbatim>\<open>'like'\<close> nor \<^verbatim>\<open>'dislike'\<close>, the store is returned unchanged (no
  row of any table is created or deleted) and the response is the success response that
  carries the number of Like rows of the post, the number of Dislike rows of the post, and
  the user's reaction in that store: \<^verbatim>\<open>'like'\<close> when the user has a Like row of the post,
  else \<^verbatim>\<open>'dislike'\<close> when the user has a Dislike row, else none.
\<close>

theorem unknown_reaction_no_change:
  assumes "request_method request = POST" and "req_user request = Some u" and "get_blog d k \<noteq> None"
    and "body request = Some (JDict kv)"
    and "map_of kv ''reaction'' \<noteq> Some (JStr ''like'')"
    and "map_of kv ''reaction'' \<noteq> Some (JStr ''dislike'')"
  shows "like_dislike_post request k d =
           (d, JsonResponse 200
                 (JSuccess (int (length (filter (\<lambda>r. blog r = k) (likes d))))
                           (int (length (filter (\<lambda>r. blog r = k) (dislikes d))))
                           (if \<exists>r \<in> set (likes d). user r = uid u \<and> blog r = k then Some ''like''
                            else if \<exists>r \<in> set (dislikes d). user r = uid u \<and> blog r = k then Some ''dislike''
                            else None)))"
proof -
  have "like_dislike_post request k d =
          (d, JsonResponse 200 (JSuccess (likes_count d k) (dislikes_count d k) (user_reaction d (uid u) k)))"
    using assms
    by (auto simp: like_dislike_post_def data_get_def reaction_response_def dest: get_blog_pk)
  moreover have "likes_count d k = int (length (filter (\<lambda>r. blog r = k) (likes d)))"
    and "dislikes_count d k = int (length (filter (\<lambda>r. blog r = k) (dislikes d)))"
    by (simp_all add: likes_count_def dislikes_count_def count_def)
  moreover have "user_reaction d (uid u) k =
      (if \<exists>r \<in> set (likes d). user r = uid u \<and> blog r = k then Some ''like''
       else if \<exists>r \<in> set (dislikes d). user r = uid u \<and> blog r = k then Some ''dislike''
       else None)"
    unfolding user_reaction_def exists_filter_iff by_user_blog_def ..
  ultimately show ?thesis
    by (simp only:)
qed

text \<open>
  Post 1 is liked by Bob and Carol and disliked by Alice; Alice sends the reaction
  \<^verbatim>\<open>'love'\<close> and is answered with the counts 2 and 1 and her reaction \<^verbatim>\<open>'dislike'\<close>.
\<close>

theorem unknown_reaction_no_change_witness:
  "likes three_reactions = [\<lparr>user = 2, blog = 1, created_at = 4\<rparr>, \<lparr>user = 3, blog = 1, created_at = 5\<rparr>] \<and>
   dislikes three_reactions = [\<lparr>user = 1, blog = 1, created_at = 6\<rparr>] \<and>
   like_dislike_post (reaction_by alice ''love'' 9) 1 three_reactions
     = (three_reactions, JsonResponse 200 (JSuccess 2 1 (Some ''dislike'')))"
proof -
  have h: "request_method (reaction_by alice ''love'' 9) = POST"
      "req_user (reaction_by alice ''love'' 9) = Some alice"
      "get_blog three_reactions 1 \<noteq> None"
      "body (reaction_by alice ''love'' 9) = Some (JDict [(''reaction'', JStr ''love'')])"
      "map_of [(''reaction'', JStr ''love'')] ''reaction'' \<noteq> Some (JStr ''like'')"
      "map_of [(''reaction'', JStr ''love'')] ''reaction'' \<noteq> Some (JStr ''dislike'')"
    by (simp_all add: reaction_eval three_reactions_def carol_def)
  have l: "likes three_reactions
             = [\<lparr>user = 2, blog = 1, created_at = 4\<rparr>, \<lparr>user = 3, blog = 1, created_at = 5\<rparr>]"
    and dl: "dislikes three_reactions = [\<lparr>user = 1, blog = 1, created_at = 6\<rparr>]"
    and a: "uid alice = 1"
    by (simp_all add: reaction_eval three_reactions_def carol_def)
  from unknown_reaction_no_change [OF h]
  have "like_dislike_post (reaction_by alice ''love'' 9) 1 three_reactions =
           (three_reactions, JsonResponse 200
                 (JSuccess (int (length (filter (\<lambda>r. blog r = 1) (likes three_reactions))))
                           (int (length (filter (\<lambda>r. blog r = 1) (dislikes three_reactions))))
                           (if \<exists>r \<in> set (likes three_reactions). user r = uid alice \<and> blog r = 1 then Some ''like''
                            else if \<exists>r \<in> set (dislikes three_reactions). user r = uid alice \<and> blog r = 1
                              then Some ''dislike''
                            else None)))" .
  then have "like_dislike_post (reaction_by alice ''love'' 9) 1 three_reactions
     = (three_reactions, JsonResponse 200 (JSuccess 2 1 (Some ''dislike'')))"
    unfolding l dl a by simp
  with l dl show ?thesis by blast
qed

lemma pair_count_delete:
  "unique_together xs \<Longrightarrow> \<exists>r \<in> set xs. user r = u \<and> blog r = b \<Longrightarrow>
     int (length (filter (\<lambda>r. blog r = b) (filter_delete (by_user_blog u b) xs)))
       = int (length (filter (\<lambda>r. blog r = b) xs)) - 1"
proof (induction xs)
  case Nil
  then show ?case by simp
next
  case (Cons x xs)
  show ?case
  proof (cases "user x = u \<and> blog x = b")
    case True
    with Cons.prems(1) have "\<forall>r \<in> set xs. \<not> (user r = u \<and> blog r = b)"
      by (auto simp: unique_together_def image_iff)
    then have "filter_delete (by_user_blog u b) xs = xs"
      by (simp add: filter_delete_def by_user_blog_def)
    with True show ?thesis
      by (simp add: filter_delete_def by_user_blog_def)
  next
    case False
    with Cons.prems have "unique_together xs" and "\<exists>r \<in> set xs. user r = u \<and> blog r = b"
      by (auto simp: unique_together_def)
    from Cons.IH [OF this] False show ?thesis
      by (auto simp: filter_delete_def by_user_blog_def)
  qed
qed

lemma unique_together_delete:
  "unique_together xs \<Longrightarrow> unique_together (filter_delete P xs)"
  by (simp add: unique_together_def filter_delete_def distinct_map_filter)

lemma unique_together_append:
  "unique_together xs \<Longrightarrow> \<not> (\<exists>x \<in> set xs. user x = user r \<and> blog x = blog r) \<Longrightarrow>
     unique_together (xs @ [r])"
  by (auto simp: unique_together_def)

lemma like_branch_unique_likes:
  "like_branch u b t d = Inr d' \<Longrightarrow> unique_together (likes d) \<Longrightarrow> unique_together (likes d')"
  unfolding like_branch_eq
  by (auto simp: has_like_iff split: if_splits intro!: unique_together_delete unique_together_append)

lemma like_branch_unique_dislikes:
  "like_branch u b t d = Inr d' \<Longrightarrow> unique_together (dislikes d) \<Longrightarrow> unique_together (dislikes d')"
  unfolding like_branch_eq
  by (auto split: if_splits intro!: unique_together_delete)

lemma dislike_branch_unique_dislikes:
  "dislike_branch u b t d = Inr d' \<Longrightarrow> unique_together (dislikes d) \<Longrightarrow> unique_together (dislikes d')"
  unfolding dislike_branch_eq
  by (auto simp: has_dislike_iff split: if_splits intro!: unique_together_delete unique_together_append)

lemma dislike_branch_unique_likes:
  "dislike_branch u b t d = Inr d' \<Longrightarrow> unique_together (likes d) \<Longrightarrow> unique_together (likes d')"
  unfolding dislike_branch_eq
  by (auto split: if_splits intro!: unique_together_delete)

lemma like_branch_likes_count:
  assumes "like_branch u b t d = Inr d'" and "unique_together (likes d)"
  shows "likes_count d' b = (if has_like d u b then likes_count d b - 1 else likes_count d b + 1)"
proof (cases "has_like d u b")
  case True
  with assms(1) have "likes d' = filter_delete (by_user_blog u b) (likes d)"
    by (auto simp: like_branch_eq)
  with True assms(2) show ?thesis
    by (simp add: likes_count_def count_def pair_count_delete has_like_iff)
next
  case False
  with assms(1) have "likes d' = likes d @ [\<lparr>user = u, blog = b, created_at = t\<rparr>]"
    by (auto simp: like_branch_eq)
  with False show ?thesis
    by (simp add: likes_count_def count_def)
qed

lemma like_branch_dislikes_count:
  assumes "like_branch u b t d = Inr d'" and "unique_together (dislikes d)"
  shows "dislikes_count d' b =
           (if \<not> has_like d u b \<and> has_dislike d u b then dislikes_count d b - 1 else dislikes_count d b)"
proof (cases "\<not> has_like d u b \<and> has_dislike d u b")
  case True
  with assms(1) have "dislikes d' = filter_delete (by_user_blog u b) (dislikes d)"
    by (auto simp: like_branch_eq)
  with True assms(2) show ?thesis
    by (simp add: dislikes_count_def count_def pair_count_delete has_dislike_iff)
next
  case False
  with assms(1) have "dislikes d' = dislikes d"
    by (auto simp: like_branch_eq has_dislike_def filter_delete_absent split: if_splits)
  with False show ?thesis
    by (simp add: dislikes_count_def)
qed

lemma dislike_branch_dislikes_count:
  assumes "dislike_branch u b t d = Inr d'" and "unique_together (dislikes d)"
  shows "dislikes_count d' b = (if has_dislike d u b then dislikes_count d b - 1 else dislikes_count d b + 1)"
proof (cases "has_dislike d u b")
  case True
  with assms(1) have "dislikes d' = filter_delete (by_user_blog u b) (dislikes d)"
    by (auto simp: dislike_branch_eq)
  with True assms(2) show ?thesis
    by (simp add: dislikes_count_def count_def pair_count_delete has_dislike_iff)
next
  case False
  with assms(1) have "dislikes d' = dislikes d @ [\<lparr>user = u, blog = b, created_at = t\<rparr>]"
    by (auto simp: dislike_branch_eq)
  with False show ?thesis
    by (simp add: dislikes_count_def count_def)
qed

lemma dislike_branch_likes_count:
  assumes "dislike_branch u b t d = Inr d'" and "unique_together (likes d)"
  shows "likes_count d' b =
           (if \<not> has_dislike d u b \<and> has_like d u b then likes_count d b - 1 else likes_count d b)"
proof (cases "\<not> has_dislike d u b \<and> has_like d u b")
  case True
  with assms(1) have "likes d' = filter_delete (by_user_blog u b) (likes d)"
    by (auto simp: dislike_branch_eq)
  with True assms(2) show ?thesis
    by (simp add: likes_count_def count_def pair_count_delete has_like_iff)
next
  case False
  with assms(1) have "likes d' = likes d"
    by (auto simp: dislike_branch_eq has_like_def filter_delete_absent split: if_splits)
  with False show ?thesis
    by (simp add: likes_count_def)
qed

lemma like_twice:
  assumes s1: "like_branch u b t1 d = Inr d1" and s2: "like_branch u b t2 d1 = Inr d2"
    and ul: "unique_together (likes d)" and ud: "unique_together (dislikes d)"
    and st: "pair_state d u b = Some s"
  shows "likes_count d2 b = likes_count d b \<and>
         pair_state d2 u b = Some (if s = Disliked then NoReaction else s) \<and>
         dislikes_count d2 b = (if s = Disliked then dislikes_count d b - 1 else dislikes_count d b)"
proof -
  note ul1 = like_branch_unique_likes [OF s1 ul]
  note ud1 = like_branch_unique_dislikes [OF s1 ud]
  have "likes_count d2 b = likes_count d b"
    by (simp add: like_branch_likes_count [OF s2 ul1] like_branch_likes_count [OF s1 ul]
          like_branch_has_like [OF s1])
  moreover have "pair_state d2 u b = Some (if s = Disliked then NoReaction else s)"
    using st
    by (auto simp: pair_state_def like_branch_has_like [OF s2] like_branch_has_dislike [OF s2]
          like_branch_has_like [OF s1] like_branch_has_dislike [OF s1] split: if_splits)
  moreover have "dislikes_count d2 b = (if s = Disliked then dislikes_count d b - 1 else dislikes_count d b)"
    using st
    by (auto simp: pair_state_def like_branch_dislikes_count [OF s2 ud1] like_branch_dislikes_count [OF s1 ud]
          like_branch_has_like [OF s1] like_branch_has_dislike [OF s1] split: if_splits)
  ultimately show ?thesis by blast
qed

lemma dislike_twice:
  assumes s1: "dislike_branch u b t1 d = Inr d1" and s2: "dislike_branch u b t2 d1 = Inr d2"
    and ul: "unique_together (likes d)" and ud: "unique_together (dislikes d)"
    and st: "pair_state d u b = Some s"
  shows "dislikes_count d2 b = dislikes_count d b \<and>
         pair_state d2 u b = Some (if s = Liked then NoReaction else s) \<and>
         likes_count d2 b = (if s = Liked then likes_count d b - 1 else likes_count d b)"
proof -
  note ul1 = dislike_branch_unique_likes [OF s1 ul]
  note ud1 = dislike_branch_unique_dislikes [OF s1 ud]
  have "dislikes_count d2 b = dislikes_count d b"
    by (simp add: dislike_branch_dislikes_count [OF s2 ud1] dislike_branch_dislikes_count [OF s1 ud]
          dislike_branch_has_dislike [OF s1])
  moreover have "pair_state d2 u b = Some (if s = Liked then NoReaction else s)"
    using st
    by (auto simp: pair_state_def dislike_branch_has_like [OF s2] dislike_branch_has_dislike [OF s2]
          dislike_branch_has_like [OF s1] dislike_branch_has_dislike [OF s1] split: if_splits)
  moreover have "likes_count d2 b = (if s = Liked then likes_count d b - 1 else likes_count d b)"
    using st
    by (auto simp: pair_state_def dislike_branch_likes_count [OF s2 ul1] dislike_branch_likes_count [OF s1 ul]
          dislike_branch_has_like [OF s1] dislike_branch_has_dislike [OF s1] split: if_splits)
  ultimately show ?thesis by blast
qed

lemma like_dislike_post_blogs: "blogs (fst (like_dislike_post request k d)) = blogs d"
  by (auto simp: like_dislike_post_def like_branch_eq dislike_branch_eq split: option.splits sum.splits)

lemma like_dislike_post_get_blog: "get_blog (fst (like_dislike_post request k d)) j = get_blog d j"
  by (simp add: get_blog_def like_dislike_post_blogs)

text \<open>
  Claim C5, amended.  With unique rows per pair and the pair in one of the three states,
  two \<^verbatim>\<open>'like'\<close> requests of the user in a row bring the post's like count back to what it
  was; the pair's state comes back when it was none or liked, and from disliked it ends in
  none, with the dislike count one lower.  Two \<^verbatim>\<open>'dislike'\<close> requests do the mirror.
\<close>

theorem double_toggle:
  assumes "unique_together (likes d)" and "unique_together (dislikes d)"
    and "get_blog d k \<noteq> None" and "pair_state d u k = Some s"
  shows "(reaction_request like_a u ''like'' \<and> reaction_request like_b u ''like'' \<longrightarrow>
            likes_count (fst (like_dislike_post like_b k (fst (like_dislike_post like_a k d)))) k = likes_count d k \<and>
            pair_state (fst (like_dislike_post like_b k (fst (like_dislike_post like_a k d)))) u k
              = Some (if s = Disliked then NoReaction else s) \<and>
            dislikes_count (fst (like_dislike_post like_b k (fst (like_dislike_post like_a k d)))) k
              = (if s = Disliked then dislikes_count d k - 1 else dislikes_count d k)) \<and>
         (reaction_request dislike_a u ''dislike'' \<and> reaction_request dislike_b u ''dislike'' \<longrightarrow>
            dislikes_count (fst (like_dislike_post dislike_b k (fst (like_dislike_post dislike_a k d)))) k = dislikes_count d k \<and>
            pair_state (fst (like_dislike_post dislike_b k (fst (like_dislike_post dislike_a k d)))) u k
              = Some (if s = Liked then NoReaction else s) \<and>
            likes_count (fst (like_dislike_post dislike_b k (fst (like_dislike_post dislike_a k d)))) k
              = (if s = Liked then likes_count d k - 1 else likes_count d k))"
proof (intro conjI impI)
  assume r: "reaction_request like_a u ''like'' \<and> reaction_request like_b u ''like''"
  let ?after_first = "fst (like_dislike_post like_a k d)"
  have b1: "get_blog ?after_first k \<noteq> None"
    using assms(3) by (simp add: like_dislike_post_get_blog)
  note tw = like_twice [OF like_request_step [OF conjunct1 [OF r] assms(3)]
              like_request_step [OF conjunct2 [OF r] b1] assms(1,2,4)]
  from tw show "likes_count (fst (like_dislike_post like_b k ?after_first)) k = likes_count d k" by blast
  from tw show "pair_state (fst (like_dislike_post like_b k ?after_first)) u k = Some (if s = Disliked then NoReaction else s)"
    by blast
  from tw show "dislikes_count (fst (like_dislike_post like_b k ?after_first)) k
     = (if s = Disliked then dislikes_count d k - 1 else dislikes_count d k)" by blast
next
  assume r: "reaction_request dislike_a u ''dislike'' \<and> reaction_request dislike_b u ''dislike''"
  let ?after_first = "fst (like_dislike_post dislike_a k d)"
  have b1: "get_blog ?after_first k \<noteq> None"
    using assms(3) by (simp add: like_dislike_post_get_blog)
  note tw = dislike_twice [OF dislike_request_step [OF conjunct1 [OF r] assms(3)]
              dislike_request_step [OF conjunct2 [OF r] b1] assms(1,2,4)]
  from tw show "dislikes_count (fst (like_dislike_post dislike_b k ?after_first)) k = dislikes_count d k" by blast
  from tw show "pair_state (fst (like_dislike_post dislike_b k ?after_first)) u k = Some (if s = Liked then NoReaction else s)"
    by blast
  from tw show "likes_count (fst (like_dislike_post dislike_b k ?after_first)) k
     = (if s = Liked then likes_count d k - 1 else likes_count d k)" by blast
qed

text \<open>
  The amended statement where Alice dislikes post 1: after two \<^verbatim>\<open>'like'\<close> requests the pair
  is in none, after two \<^verbatim>\<open>'dislike'\<close> requests it is disliked again.
\<close>

theorem double_toggle_witness:
  "likes_count (fst (like_dislike_post (reaction_by alice ''like'' 7) 1
       (fst (like_dislike_post (reaction_by alice ''like'' 6) 1
          (fst (like_dislike_post (reaction_by alice ''dislike'' 5) 1 two_posts)))))) 1 = 0 \<and>
   pair_state (fst (like_dislike_post (reaction_by alice ''like'' 7) 1
       (fst (like_dislike_post (reaction_by alice ''like'' 6) 1
          (fst (like_dislike_post (reaction_by alice ''dislike'' 5) 1 two_posts)))))) 1 1
     = Some NoReaction \<and>
   dislikes_count (fst (like_dislike_post (reaction_by alice ''like'' 7) 1
       (fst (like_dislike_post (reaction_by alice ''like'' 6) 1
          (fst (like_dislike_post (reaction_by alice ''dislike'' 5) 1 two_posts)))))) 1 = 0 \<and>
   pair_state (fst (like_dislike_post (reaction_by alice ''dislike'' 9) 1
       (fst (like_dislike_post (reaction_by alice ''dislike'' 8) 1
          (fst (like_dislike_post (reaction_by alice ''dislike'' 5) 1 two_posts)))))) 1 1
     = Some Disliked"
proof -
  let ?d = "fst (like_dislike_post (reaction_by alice ''dislike'' 5) 1 two_posts)"
  have h: "unique_together (likes ?d)" "unique_together (dislikes ?d)" "get_blog ?d 1 \<noteq> None"
      "pair_state ?d 1 1 = Some Disliked"
    by (simp_all add: reaction_eval)
  have r: "reaction_request (reaction_by alice ''like'' 6) 1 ''like''
             \<and> reaction_request (reaction_by alice ''like'' 7) 1 ''like''"
      "reaction_request (reaction_by alice ''dislike'' 8) 1 ''dislike''
             \<and> reaction_request (reaction_by alice ''dislike'' 9) 1 ''dislike''"
    by (simp_all add: reaction_eval)
  have c: "likes_count ?d 1 = 0" "dislikes_count ?d 1 = 1"
    by (simp_all add: reaction_eval)
  from double_toggle [OF h, where like_a = "reaction_by alice ''like'' 6"
      and like_b = "reaction_by alice ''like'' 7" and dislike_a = "reaction_by alice ''dislike'' 8"
      and dislike_b = "reaction_by alice ''dislike'' 9"] r c
  show ?thesis by simp
qed

text \<open>
  Claim C5 as stated fails from the disliked state: Alice dislikes post 1, then sends
  \<^verbatim>\<open>'like'\<close> twice; the pair ends in none, not in disliked.
\<close>

theorem like_twice_counterexample:
  "pair_state (fst (like_dislike_post (reaction_by alice ''dislike'' 5) 1 two_posts)) 1 1 = Some Disliked \<and>
   pair_state
     (fst (like_dislike_post (reaction_by alice ''like'' 7) 1
        (fst (like_dislike_post (reaction_by alice ''like'' 6) 1
           (fst (like_dislike_post (reaction_by alice ''dislike'' 5) 1 two_posts)))))) 1 1
     = Some NoReaction"
  by (simp add: reaction_eval)

section \<open>Properties of favorites\<close>

lemma unique_filter_cases:
  "unique_together xs \<Longrightarrow>
     filter (by_user_blog u b) xs = [] \<or> (\<exists>r. filter (by_user_blog u b) xs = [r])"
proof (induction xs)
  case Nil
  then show ?case by simp
next
  case (Cons x xs)
  then have u: "unique_together xs"
    by (simp add: unique_together_def)
  show ?case
  proof (cases "by_user_blog u b x")
    case True
    with Cons.prems have "\<forall>r \<in> set xs. \<not> by_user_blog u b r"
      by (auto simp: unique_together_def by_user_blog_def image_iff)
    then have "filter (by_user_blog u b) xs = []"
      by (simp add: filter_empty_conv)
    with True show ?thesis by simp
  next
    case False
    with Cons.IH [OF u] show ?thesis by simp
  qed
qed

lemma filter_pair_after_delete:
  "filter (by_user_blog u b) (filter_delete (by_user_blog u b) xs) = []"
  by (simp add: filter_delete_def filter_empty_conv)

lemma filter_other_after_delete:
  "(u', b') \<noteq> (u, b) \<Longrightarrow>
     filter (by_user_blog u' b') (filter_delete (by_user_blog u b) xs) = filter (by_user_blog u' b') xs"
  by (auto simp: filter_delete_def by_user_blog_def intro: filter_cong)

lemma toggle_favorite_eq:
  assumes "req_user request = Some usr" and "get_blog d k \<noteq> None" and "unique_together (favorites d)"
  shows "toggle_favorite mail_sent request k d =
           (if filter (by_user_blog (uid usr) k) (favorites d) = []
            then (d\<lparr>favorites := favorites d @ [\<lparr>user = uid usr, blog = k, created_at = now request\<rparr>]\<rparr>,
                  (Success, ''Added to favorites!'') #
                    (if mail_sent then []
                     else [(Warning, ''Blog was added to favorites, but we could not send you an email confirmation.'')]),
                  RedirectBlogDetail k)
            else (d\<lparr>favorites := filter_delete (by_user_blog (uid usr) k) (favorites d)\<rparr>,
                  [(Success, ''Removed from favorites.'')], RedirectBlogDetail k))"
proof -
  from assms(2) obtain b where b: "get_blog d k = Some b" by blast
  then have pk: "pk b = k" by (rule get_blog_pk)
  from unique_filter_cases [OF assms(3), of "uid usr" k]
  show ?thesis
  proof
    assume e: "filter (by_user_blog (uid usr) k) (favorites d) = []"
    then show ?thesis
      by (simp add: toggle_favorite_def assms(1) b pk get_or_create_def create_def exists_def)
  next
    assume "\<exists>r. filter (by_user_blog (uid usr) k) (favorites d) = [r]"
    then obtain r where r: "filter (by_user_blog (uid usr) k) (favorites d) = [r]" by blast
    then have "r \<in> set (filter (by_user_blog (uid usr) k) (favorites d))" by simp
    then have "user r = uid usr" and "blog r = k"
      by (simp_all add: by_user_blog_def)
    with r show ?thesis
      by (simp add: toggle_favorite_def assms(1) b pk get_or_create_def)
  qed
qed

lemmas favorite_eval =
  toggle_favorite_def get_or_create_def create_def exists_def get_blog_def by_user_blog_def
  two_posts_def plain_request_def no_form_def alice_def unique_together_def filter_delete_def

text \<open>
  Claim C7.  For a logged-in user and an existing post, with unique rows per pair:
  \<open>toggle_favorite\<close> removes the pair's Favorite when there is one and creates exactly one
  otherwise; the table stays unique per pair; the Like and Dislike tables are returned as
  they were and have no influence on the outcome.  Whether the confirmation mail is sent
  changes neither the store nor the response, which is the redirect of success; when the
  mail fails after an addition, a warning message is added.
\<close>

theorem toggle_favorite_membership:
  assumes "req_user request = Some usr" and "get_blog d k \<noteq> None" and "unique_together (favorites d)"
  shows "(filter (by_user_blog (uid usr) k) (favorites d) \<noteq> [] \<longrightarrow>
            filter (by_user_blog (uid usr) k) (favorites (fst (toggle_favorite mail_sent request k d))) = []) \<and>
         (filter (by_user_blog (uid usr) k) (favorites d) = [] \<longrightarrow>
            filter (by_user_blog (uid usr) k) (favorites (fst (toggle_favorite mail_sent request k d)))
              = [\<lparr>user = uid usr, blog = k, created_at = now request\<rparr>] \<and>
            (\<not> mail_sent \<longrightarrow>
               (Warning, ''Blog was added to favorites, but we could not send you an email confirmation.'')
                 \<in> set (fst (snd (toggle_favorite mail_sent request k d))))) \<and>
         unique_together (favorites (fst (toggle_favorite mail_sent request k d))) \<and>
         fst (toggle_favorite mail_sent request k d) = fst (toggle_favorite True request k d) \<and>
         snd (snd (toggle_favorite mail_sent request k d)) = RedirectBlogDetail k \<and>
         likes (fst (toggle_favorite mail_sent request k d)) = likes d \<and>
         dislikes (fst (toggle_favorite mail_sent request k d)) = dislikes d \<and>
         favorites (fst (toggle_favorite mail_sent request k (d\<lparr>likes := ls, dislikes := ds\<rparr>)))
           = favorites (fst (toggle_favorite mail_sent request k d))"
proof -
  have b': "get_blog (d\<lparr>likes := ls, dislikes := ds\<rparr>) k \<noteq> None"
    using assms(2) by (simp add: get_blog_def)
  have u': "unique_together (favorites (d\<lparr>likes := ls, dislikes := ds\<rparr>))"
    using assms(3) by simp
  note eq = toggle_favorite_eq [OF assms]
  note eq' = toggle_favorite_eq [OF assms(1) b' u']
  have "unique_together (favorites (fst (toggle_favorite mail_sent request k d)))"
    using assms(3)
    by (auto simp: eq filter_empty_conv by_user_blog_def
          intro!: unique_together_delete unique_together_append)
  moreover have "by_user_blog (uid usr) k \<lparr>user = uid usr, blog = k, created_at = now request\<rparr>"
    by (simp add: by_user_blog_def)
  ultimately show ?thesis
    by (simp add: eq eq' filter_pair_after_delete)
qed

text \<open>
  Alice adds post 1 to her favorites while the mail fails (the row is kept, with a
  warning), then toggles again (the row is removed).
\<close>

theorem toggle_favorite_membership_witness:
  "filter (by_user_blog 1 1) (favorites (fst (toggle_favorite False (plain_request POST (Some alice) 3) 1 two_posts)))
     = [\<lparr>user = 1, blog = 1, created_at = 3\<rparr>] \<and>
   (Warning, ''Blog was added to favorites, but we could not send you an email confirmation.'')
     \<in> set (fst (snd (toggle_favorite False (plain_request POST (Some alice) 3) 1 two_posts))) \<and>
   snd (snd (toggle_favorite False (plain_request POST (Some alice) 3) 1 two_posts)) = RedirectBlogDetail 1 \<and>
   filter (by_user_blog 1 1)
     (favorites (fst (toggle_favorite True (plain_request POST (Some alice) 4) 1
        (fst (toggle_favorite False (plain_request POST (Some alice) 3) 1 two_posts))))) = []"
proof -
  let ?r = "plain_request POST (Some alice) 3"
  let ?r' = "plain_request POST (Some alice) 4"
  let ?d = "fst (toggle_favorite False ?r 1 two_posts)"
  have u: "req_user ?r = Some alice" "req_user ?r' = Some alice" "uid alice = 1"
    by (simp_all add: plain_request_def alice_def)
  have b: "get_blog two_posts 1 \<noteq> None"
    by (simp add: get_blog_def two_posts_def)
  have q: "unique_together (favorites two_posts)"
    by (simp add: unique_together_def two_posts_def)
  have e: "filter (by_user_blog (uid alice) 1) (favorites two_posts) = []"
    by (simp add: two_posts_def)
  have t: "now ?r = 3"
    by (simp add: plain_request_def)
  note first = toggle_favorite_membership [OF u(1) b q, where mail_sent = False]
  have b': "get_blog ?d 1 \<noteq> None" and q': "unique_together (favorites ?d)"
    and e': "filter (by_user_blog (uid alice) 1) (favorites ?d) \<noteq> []"
    by (simp_all add: favorite_eval)
  note second = toggle_favorite_membership [OF u(2) b' q', where mail_sent = True]
  from first e
  have f: "filter (by_user_blog (uid alice) 1) (favorites ?d)
             = [\<lparr>user = uid alice, blog = 1, created_at = now ?r\<rparr>]"
      "(Warning, ''Blog was added to favorites, but we could not send you an email confirmation.'')
         \<in> set (fst (snd (toggle_favorite False ?r 1 two_posts)))"
      "snd (snd (toggle_favorite False ?r 1 two_posts)) = RedirectBlogDetail 1"
    by blast+
  from second e'
  have g: "filter (by_user_blog (uid alice) 1) (favorites (fst (toggle_favorite True ?r' 1 ?d))) = []"
    by blast
  from f g show ?thesis
    unfolding u(3) t by blast
qed

section \<open>Properties of rating submission\<close>

lemma update_or_create_eq:
  assumes "unique_together table"
  shows "update_or_create u b s t table =
           Inr (if filter (by_user_blog u b) table = []
                then table @ [\<lparr>user = u, blog = b, created_at = t, score = s\<rparr>]
                else map (\<lambda>x. if by_user_blog u b x then x\<lparr>score := s\<rparr> else x) table)"
  using unique_filter_cases [OF assms, of u b]
  by (auto simp: update_or_create_def create_def exists_def by_user_blog_def)

lemma rescore_keys:
  "map (\<lambda>r. (user r, blog r)) (map (\<lambda>x. if P x then x\<lparr>score := s\<rparr> else x) table)
     = map (\<lambda>r. (user r, blog r)) table"
  by (induction table) auto

lemma rescore_filter_pair:
  "map score (filter (by_user_blog u b) (map (\<lambda>x. if by_user_blog u b x then x\<lparr>score := s\<rparr> else x) table))
     = map (\<lambda>_. s) (filter (by_user_blog u b) table)"
  by (induction table) (auto simp: by_user_blog_def)

lemma rescore_filter_others:
  "filter (\<lambda>r. \<not> by_user_blog u b r) (map (\<lambda>x. if by_user_blog u b x then x\<lparr>score := s\<rparr> else x) table)
     = filter (\<lambda>r. \<not> by_user_blog u b r) table"
  by (induction table) (auto simp: by_user_blog_def)

lemma update_or_create_props:
  assumes u: "unique_together table" and r: "update_or_create u b s t table = Inr T"
  shows "unique_together T"
    and "map score (filter (by_user_blog u b) T) = [s]"
    and "filter (\<lambda>r. \<not> by_user_blog u b r) T = filter (\<lambda>r. \<not> by_user_blog u b r) table"
    and "length T = (if filter (by_user_blog u b) table = [] then length table + 1 else length table)"
proof -
  from r have T: "T = (if filter (by_user_blog u b) table = []
                then table @ [\<lparr>user = u, blog = b, created_at = t, score = s\<rparr>]
                else map (\<lambda>x. if by_user_blog u b x then x\<lparr>score := s\<rparr> else x) table)"
    by (simp add: update_or_create_eq [OF u])
  show "unique_together T"
  proof (cases "filter (by_user_blog u b) table = []")
    case True
    then have "\<not> (\<exists>x \<in> set table. user x = u \<and> blog x = b)"
      by (simp add: filter_empty_conv by_user_blog_def)
    with u True T show ?thesis
      by (simp add: unique_together_append)
  next
    case False
    with u T show ?thesis
      by (simp add: unique_together_def rescore_keys del: map_map)
  qed
  show "map score (filter (by_user_blog u b) T) = [s]"
  proof (cases "filter (by_user_blog u b) table = []")
    case True
    with T show ?thesis by (simp add: by_user_blog_def)
  next
    case False
    with unique_filter_cases [OF u, of u b] obtain x where "filter (by_user_blog u b) table = [x]"
      by blast
    with T show ?thesis by (simp add: rescore_filter_pair)
  qed
  show "filter (\<lambda>r. \<not> by_user_blog u b r) T = filter (\<lambda>r. \<not> by_user_blog u b r) table"
  proof (cases "filter (by_user_blog u b) table = []")
    case True
    with T show ?thesis by (simp add: by_user_blog_def)
  next
    case False
    with T show ?thesis by (simp add: rescore_filter_others)
  qed
  show "length T = (if filter (by_user_blog u b) table = [] then length table + 1 else length table)"
    by (simp add: T)
qed

lemma get_rating_unique:
  "unique_together (ratings d) \<Longrightarrow> \<exists>r. get_rating d u b = Inr r"
  using unique_filter_cases [of "ratings d" u b]
  by (auto simp: get_rating_def)

lemma blog_detail_rating:
  assumes u: "unique_together (ratings d)" and b: "get_blog d k \<noteq> None" and r: "rating_request request usr s"
  shows "\<exists>T. update_or_create usr k s (now request) (ratings d) = Inr T \<and>
             blog_detail request k d
               = (d\<lparr>ratings := T\<rparr>,
                  (if comment_form (POST_data request)
                   then [(Error, ''There was an error posting your comment.'')] else [])
                    @ [(Success, ''Your rating has been saved!'')],
                  RedirectBlogDetail k)"
proof -
  from b obtain bl where bl: "get_blog d k = Some bl" by blast
  then have pk: "pk bl = k" by (rule get_blog_pk)
  from r obtain a where a: "req_user request = Some a" and ua: "uid a = usr"
    by (auto simp: rating_request_def)
  from get_rating_unique [OF u] obtain g where g: "get_rating d usr k = Inr g" by blast
  have c: "comment_submission request bl d =
             (None, if comment_form (POST_data request)
                    then [(Error, ''There was an error posting your comment.'')] else [])"
    using r by (auto simp: comment_submission_def rating_request_def split: option.splits)
  obtain T where T: "update_or_create usr k s (now request) (ratings d) = Inr T"
    by (simp add: update_or_create_eq [OF u])
  have rs: "rating_submission request bl d =
              Some (d\<lparr>ratings := T\<rparr>, [(Success, ''Your rating has been saved!'')], RedirectBlogDetail k)"
    using r T by (simp add: rating_submission_def rating_request_def a ua pk)
  show ?thesis
    by (simp add: blog_detail_def bl a ua pk g c rs T)
qed

lemma blog_detail_blogs: "blogs (fst (blog_detail request k d)) = blogs d"
  by (auto simp: blog_detail_def comment_submission_def rating_submission_def save_comment_def
        split: option.splits sum.splits id_param.splits prod.splits if_splits)

lemma blog_detail_unique_ratings:
  "unique_together (ratings d) \<Longrightarrow> unique_together (ratings (fst (blog_detail request k d)))"
  by (auto simp: blog_detail_def comment_submission_def rating_submission_def save_comment_def
        split: option.splits sum.splits id_param.splits prod.splits if_splits
        dest: update_or_create_props(1))

lemma RatingForm_clean_range: "RatingForm_clean p = Some s \<Longrightarrow> 1 \<le> s \<and> s \<le> 5"
  by (auto simp: RatingForm_clean_def RATING_CHOICES_def split: option.splits if_splits)

lemmas detail_eval =
  alice_def bob_def no_form_def plain_request_def rating_by_def two_posts_def
  blog_detail_def comment_submission_def rating_submission_def get_rating_def update_or_create_def
  create_def exists_def by_user_blog_def get_blog_def RatingForm_clean_def RATING_CHOICES_def
  CommentForm_clean_def rating_request_def unique_together_def

text \<open>
  Claim C3.  With at most one Rating per pair in the store, a rating submission of user
  \<open>u\<close> on an existing post leaves the table unique per pair, with exactly one row of
  \<open>(u, post)\<close> carrying the submitted score (which lies between 1 and 5) and the rows of
  all other pairs as they were; a second submission replaces the score and adds no row.
  Uniqueness per pair is kept by every request to the view.
\<close>

theorem rating_upsert:
  assumes "unique_together (ratings d)" and "get_blog d k \<noteq> None"
    and "rating_request r1 u s1" and "rating_request r2 u s2"
  shows "unique_together (ratings (fst (blog_detail r1 k d))) \<and>
         map score (filter (by_user_blog u k) (ratings (fst (blog_detail r1 k d)))) = [s1] \<and>
         filter (\<lambda>r. \<not> by_user_blog u k r) (ratings (fst (blog_detail r1 k d)))
           = filter (\<lambda>r. \<not> by_user_blog u k r) (ratings d) \<and>
         1 \<le> s1 \<and> s1 \<le> 5 \<and>
         unique_together (ratings (fst (blog_detail r2 k (fst (blog_detail r1 k d))))) \<and>
         map score (filter (by_user_blog u k) (ratings (fst (blog_detail r2 k (fst (blog_detail r1 k d))))))
           = [s2] \<and>
         length (ratings (fst (blog_detail r2 k (fst (blog_detail r1 k d)))))
           = length (ratings (fst (blog_detail r1 k d))) \<and>
         unique_together (ratings (fst (blog_detail request j d)))"
proof -
  let ?d1 = "fst (blog_detail r1 k d)"
  from blog_detail_rating [OF assms(1,2,3)] obtain T1
    where T1: "update_or_create u k s1 (now r1) (ratings d) = Inr T1" and d1: "?d1 = d\<lparr>ratings := T1\<rparr>"
    by auto
  note p1 = update_or_create_props [OF assms(1) T1]
  have u1: "unique_together (ratings ?d1)" and b1: "get_blog ?d1 k \<noteq> None"
    using p1(1) assms(2) by (simp_all add: d1 get_blog_def)
  from blog_detail_rating [OF u1 b1 assms(4)] obtain T2
    where T2: "update_or_create u k s2 (now r2) (ratings ?d1) = Inr T2"
      and d2: "fst (blog_detail r2 k ?d1) = ?d1\<lparr>ratings := T2\<rparr>"
    by auto
  note p2 = update_or_create_props [OF u1 T2]
  have ne: "filter (by_user_blog u k) (ratings ?d1) \<noteq> []"
    using p1(2) by (auto simp: d1)
  have range: "1 \<le> s1 \<and> s1 \<le> 5"
    using assms(3) by (auto simp: rating_request_def dest: RatingForm_clean_range)
  have a: "map score (filter (by_user_blog u k) (ratings ?d1)) = [s1]"
      "filter (\<lambda>r. \<not> by_user_blog u k r) (ratings ?d1) = filter (\<lambda>r. \<not> by_user_blog u k r) (ratings d)"
    using p1(2,3) by (simp_all add: d1)
  have c: "unique_together (ratings (fst (blog_detail r2 k ?d1)))"
      "map score (filter (by_user_blog u k) (ratings (fst (blog_detail r2 k ?d1)))) = [s2]"
      "length (ratings (fst (blog_detail r2 k ?d1))) = length (ratings ?d1)"
    using p2(1,2,4) ne by (simp_all add: d2)
  show ?thesis
    using u1 a c range blog_detail_unique_ratings [OF assms(1), of request j]
    by blast
qed

text \<open>Alice rates post 1 with 3 and then with 5: one row, with score 5.\<close>

theorem rating_upsert_witness:
  "map score (filter (by_user_blog 1 1) (ratings (fst (blog_detail (rating_by alice ''3'' 5) 1 two_posts)))) = [3] \<and>
   map score (filter (by_user_blog 1 1)
     (ratings (fst (blog_detail (rating_by alice ''5'' 6) 1
        (fst (blog_detail (rating_by alice ''3'' 5) 1 two_posts)))))) = [5] \<and>
   length (ratings (fst (blog_detail (rating_by alice ''5'' 6) 1
        (fst (blog_detail (rating_by alice ''3'' 5) 1 two_posts))))) = 1"
proof -
  have h: "unique_together (ratings two_posts)" "get_blog two_posts 1 \<noteq> None"
      "rating_request (rating_by alice ''3'' 5) 1 3" "rating_request (rating_by alice ''5'' 6) 1 5"
    by (simp_all add: detail_eval)
  have l: "length (ratings (fst (blog_detail (rating_by alice ''3'' 5) 1 two_posts))) = 1"
    by (simp add: detail_eval)
  from rating_upsert [OF h] l show ?thesis
    by simp
qed

section \<open>Properties of comment submission\<close>

lemma comment_submission_reply:
  assumes "comment_request request u text" and "parent_comment_id (POST_data request) = IdNumber n"
  shows "comment_submission request b d =
           (case get_comment d n of
              None \<Rightarrow> (Some (d, [(Error, ''Invalid comment to reply to.'')], RedirectBlogDetail (pk b)), [])
            | Some parent \<Rightarrow>
                (Some (save_comment (pk b) u text (Some n) (now request) d,
                       [(Success, ''Your comment has been posted!'')], RedirectBlogDetail (pk b)), []))"
proof -
  from assms(1) obtain a where a: "req_user request = Some a" "uid a = u"
    by (auto simp: comment_request_def)
  have "comment_id parent = n" if "get_comment d n = Some parent" for parent
    using that by (auto simp: get_comment_def find_Some_iff)
  then show ?thesis
    using assms a by (auto simp: comment_submission_def comment_request_def split: option.splits)
qed

lemmas comment_eval =
  comment_by_def comment_request_def save_comment_def get_comment_def strip_def is_space_def
  cross_post_reply_def padded_def

text \<open>Text of white space only is refused; white space around a text is removed.\<close>

lemma CommentForm_clean_white_space:
  "CommentForm_clean (no_form\<lparr>content_field := Some [CHR 0xA0, CHR 0x85, CHR 0x09]\<rparr>) = None"
  "CommentForm_clean (no_form\<lparr>content_field := Some (padded ''hi'')\<rparr>) = Some ''hi''"
  by (simp_all add: CommentForm_clean_def no_form_def strip_def is_space_def padded_def)

text \<open>
  Claim C2, amended.  A valid comment form of user \<open>u\<close> whose parent id is text that reads
  as the number \<open>n\<close>, on an existing post: when no comment has the id \<open>n\<close>, the store is
  returned unchanged with the error message and the redirect; when a comment has the id
  \<open>n\<close>, whichever post it is on, one comment row is appended, on the post being commented
  on, with parent \<open>n\<close> and the stripped text.
\<close>

theorem comment_parent_resolution:
  assumes "unique_together (ratings d)" and "get_blog d k \<noteq> None"
    and "comment_request request u text" and "parent_comment_id (POST_data request) = IdNumber n"
  shows "(get_comment d n = None \<longrightarrow>
            blog_detail request k d = (d, [(Error, ''Invalid comment to reply to.'')], RedirectBlogDetail k)) \<and>
         (get_comment d n \<noteq> None \<longrightarrow>
            blog_detail request k d =
              (d\<lparr>comments := comments d @
                    [\<lparr>user = u, blog = k, created_at = now request, comment_id = comment_seq d,
                      content = text, parent_comment = Some n\<rparr>],
                 comment_seq := comment_seq d + 1\<rparr>,
               [(Success, ''Your comment has been posted!'')], RedirectBlogDetail k))"
proof -
  from assms(2) obtain b where b: "get_blog d k = Some b" by blast
  then have pk: "pk b = k" by (rule get_blog_pk)
  from assms(3) obtain a where a: "req_user request = Some a" "uid a = u"
    by (auto simp: comment_request_def)
  from get_rating_unique [OF assms(1)] obtain g where g: "get_rating d u k = Inr g" by blast
  note c = comment_submission_reply [OF assms(3,4), of b d]
  show ?thesis
    by (auto simp: blog_detail_def b pk a g c save_comment_def)
qed

text \<open>
  After Bob's comment 1 on post 2: Alice's reply to the missing comment 9 changes nothing,
  her reply to comment 1 on post 2, sent with white space around the text, is stored with
  parent 1 and the stripped text.
\<close>

theorem comment_parent_resolution_witness:
  "blog_detail (comment_by alice ''Lost'' (IdNumber 9) 6) 1
       (fst (blog_detail (comment_by bob ''Hello'' IdAbsent 5) 2 two_posts))
     = (fst (blog_detail (comment_by bob ''Hello'' IdAbsent 5) 2 two_posts),
        [(Error, ''Invalid comment to reply to.'')], RedirectBlogDetail 1) \<and>
   comments (fst (blog_detail (comment_by alice (padded ''Indeed'') (IdNumber 1) 6) 2
       (fst (blog_detail (comment_by bob ''Hello'' IdAbsent 5) 2 two_posts))))
     = [\<lparr>user = 2, blog = 2, created_at = 5, comment_id = 1, content = ''Hello'', parent_comment = None\<rparr>,
        \<lparr>user = 1, blog = 2, created_at = 6, comment_id = 2, content = ''Indeed'', parent_comment = Some 1\<rparr>]"
proof -
  let ?d = "fst (blog_detail (comment_by bob ''Hello'' IdAbsent 5) 2 two_posts)"
  have h: "unique_together (ratings ?d)" "get_blog ?d 1 \<noteq> None" "get_blog ?d 2 \<noteq> None"
    by (simp_all add: detail_eval comment_eval)
  have r1: "comment_request (comment_by alice ''Lost'' (IdNumber 9) 6) 1 ''Lost''"
      "parent_comment_id (POST_data (comment_by alice ''Lost'' (IdNumber 9) 6)) = IdNumber 9"
    and r2: "comment_request (comment_by alice (padded ''Indeed'') (IdNumber 1) 6) 1 ''Indeed''"
      "parent_comment_id (POST_data (comment_by alice (padded ''Indeed'') (IdNumber 1) 6)) = IdNumber 1"
    by (simp_all add: detail_eval comment_eval)
  have g: "get_comment ?d 9 = None" "get_comment ?d 1 \<noteq> None"
    by (simp_all add: detail_eval comment_eval)
  have c: "comments ?d
     = [\<lparr>user = 2, blog = 2, created_at = 5, comment_id = 1, content = ''Hello'', parent_comment = None\<rparr>]"
    "now (comment_by alice (padded ''Indeed'') (IdNumber 1) 6) = 6" "comment_seq ?d = 2"
    by (simp_all add: detail_eval comment_eval)
  from comment_parent_resolution [OF h(1,2) r1] g(1)
  have a: "blog_detail (comment_by alice ''Lost'' (IdNumber 9) 6) 1 ?d
             = (?d, [(Error, ''Invalid comment to reply to.'')], RedirectBlogDetail 1)"
    by blast
  from comment_parent_resolution [OF h(1,3) r2] g(2)
  have "blog_detail (comment_by alice (padded ''Indeed'') (IdNumber 1) 6) 2 ?d =
              (?d\<lparr>comments := comments ?d @
                    [\<lparr>user = 1, blog = 2, created_at = now (comment_by alice (padded ''Indeed'') (IdNumber 1) 6),
                      comment_id = comment_seq ?d,
                      content = ''Indeed'', parent_comment = Some 1\<rparr>],
                 comment_seq := comment_seq ?d + 1\<rparr>,
               [(Success, ''Your comment has been posted!'')], RedirectBlogDetail 2)"
    by blast
  then have b: "comments (fst (blog_detail (comment_by alice (padded ''Indeed'') (IdNumber 1) 6) 2 ?d))
      = comments ?d @ [\<lparr>user = 1, blog = 2, created_at = now (comment_by alice (padded ''Indeed'') (IdNumber 1) 6),
                      comment_id = comment_seq ?d,
                      content = ''Indeed'', parent_comment = Some 1\<rparr>]"
    by simp
  from a b show ?thesis
    unfolding c by simp
qed

text \<open>
  Claim C2 as stated fails: Bob's comment 1 is on post 2; Alice's comment on post 1 with
  parent id 1 is stored, on post 1 with parent 1, and answered with the success message.
\<close>

theorem cross_post_parent_counterexample:
  "comments (fst (blog_detail (comment_by bob ''Hello'' IdAbsent 5) 2 two_posts))
     = [\<lparr>user = 2, blog = 2, created_at = 5, comment_id = 1, content = ''Hello'', parent_comment = None\<rparr>] \<and>
   blog_detail (comment_by alice ''I disagree'' (IdNumber 1) 6) 1
       (fst (blog_detail (comment_by bob ''Hello'' IdAbsent 5) 2 two_posts))
     = ((fst (blog_detail (comment_by bob ''Hello'' IdAbsent 5) 2 two_posts))
          \<lparr>comments :=
             [\<lparr>user = 2, blog = 2, created_at = 5, comment_id = 1, content = ''Hello'', parent_comment = None\<rparr>,
              \<lparr>user = 1, blog = 1, created_at = 6, comment_id = 2, content = ''I disagree'',
                parent_comment = Some 1\<rparr>],
            comment_seq := 3\<rparr>,
        [(Success, ''Your comment has been posted!'')], RedirectBlogDetail 1)"
  by (simp add: detail_eval comment_eval)

section \<open>Properties of the comment listing\<close>

lemma set_order_by_created_desc: "set (order_by_created_desc rank qs) = set qs"
  by (simp add: order_by_created_desc_def)

lemma length_order_by_created_desc: "length (order_by_created_desc rank qs) = length qs"
  by (simp add: order_by_created_desc_def)

lemma sorted_order_by_created_desc:
  "sorted_wrt (\<lambda>x y. created_at y \<le> created_at x) (order_by_created_desc rank qs)"
proof -
  have "sorted (map created_at (sort_key created_at (sort_key rank qs)))"
    by (rule sorted_sort_key)
  then have "sorted_wrt (\<lambda>x y. created_at x \<le> created_at y) (sort_key created_at (sort_key rank qs))"
    by (simp add: sorted_wrt_map)
  then show ?thesis
    by (simp add: order_by_created_desc_def sorted_wrt_rev)
qed

lemma position_map:
  "distinct (ys @ xs) \<Longrightarrow>
     map (\<lambda>x. length (takeWhile (\<lambda>y. y \<noteq> x) (ys @ xs))) xs = [length ys ..< length ys + length xs]"
proof (induction xs arbitrary: ys)
  case Nil
  then show ?case by simp
next
  case (Cons x xs)
  from Cons.prems have d: "distinct ((ys @ [x]) @ xs)" by simp
  from Cons.prems have "\<forall>y \<in> set ys. y \<noteq> x" by auto
  then have "takeWhile (\<lambda>y. y \<noteq> x) (ys @ x # xs) = ys"
    by (simp add: takeWhile_append2)
  moreover from Cons.IH [OF d]
  have "map (\<lambda>z. length (takeWhile (\<lambda>y. y \<noteq> z) (ys @ x # xs))) xs
          = [Suc (length ys) ..< Suc (length ys) + length xs]"
    by (simp del: upt_Suc)
  moreover have "[length ys ..< length ys + length (x # xs)]
          = length ys # [Suc (length ys) ..< Suc (length ys) + length xs]"
    by (simp add: upt_conv_Cons del: upt_Suc)
  ultimately show ?case
    by (simp del: upt_Suc)
qed

lemma sort_key_unique:
  assumes "sorted (map f xs)" and "distinct (map f xs)" and "set ys = set xs" and "distinct ys"
  shows "sort_key f ys = xs"
proof -
  have inj: "inj_on f (set xs)" and dx: "distinct xs"
    using assms(2) by (simp_all add: distinct_map)
  have "distinct (map f (sort_key f ys))"
    using assms(3,4) inj by (simp add: distinct_map)
  moreover have "sorted (map f (sort_key f ys))"
    by (rule sorted_sort_key)
  moreover have "set (map f (sort_key f ys)) = set (map f xs)"
    using assms(3) by simp
  ultimately have "map f (sort_key f ys) = map f xs"
    using assms(1,2) by (intro sorted_distinct_set_unique)
  moreover have "inj_on f (set (sort_key f ys) \<union> set xs)"
    using inj assms(3) by simp
  ultimately show ?thesis
    by (simp add: inj_on_map_eq_map)
qed

text \<open>
  No order of ties is excluded: every arrangement of distinct rows that is newest first is
  the result for some choice of the store.
\<close>

lemma order_by_created_desc_any_tie_order:
  assumes "distinct qs" and "set L = set qs" and "distinct L"
    and "sorted_wrt (\<lambda>x y. created_at y \<le> created_at x) L"
  shows "\<exists>rank. order_by_created_desc rank qs = L"
proof -
  define rank where "rank = (\<lambda>x. length (takeWhile (\<lambda>y. y \<noteq> x) (rev L)))"
  have "map rank (rev L) = [0 ..< length L]"
    using position_map [of "[]" "rev L"] assms(3) by (simp add: rank_def)
  then have "sorted (map rank (rev L))" and "distinct (map rank (rev L))"
    by simp_all
  then have "sort_key rank qs = rev L"
    using assms(1,2) by (intro sort_key_unique) simp_all
  moreover have "sorted (map created_at (rev L))"
    using assms(4) by (simp add: sorted_wrt_map rev_map [symmetric] sorted_wrt_rev)
  then have "sort_key created_at (rev L) = rev L"
    by (rule sort_key_id_if_sorted)
  ultimately have "order_by_created_desc rank qs = L"
    by (simp add: order_by_created_desc_def)
  then show ?thesis by blast
qed

lemma set_top_level_comments:
  "set (top_level_comments rank d b) = {c \<in> set (comments d). blog c = b \<and> parent_comment c = None}"
  by (auto simp: top_level_comments_def set_order_by_created_desc)

lemma length_top_level_comments:
  "length (top_level_comments rank d b)
     = length (filter (\<lambda>c. blog c = b \<and> parent_comment c = None) (comments d))"
  by (simp add: top_level_comments_def length_order_by_created_desc)

lemma num_pages_pos: "0 < num_pages xs 10"
  by (cases xs) (simp_all add: num_pages_def)

lemma paginator_page_in_range:
  "1 \<le> n \<Longrightarrow> n \<le> int (num_pages xs 10) \<Longrightarrow>
     paginator_page xs 10 (PageNumber n) = Inr (take 10 (drop ((nat n - 1) * 10) xs))"
  by (simp add: paginator_page_def)

lemma comments_page_slice:
  "\<exists>i < num_pages xs 10. comments_page xs p = take 10 (drop (i * 10) xs)"
proof -
  have first: "comments_page xs p = take 10 (drop (0 * 10) xs)"
    if "paginator_page xs 10 p = Inl PageNotAnInteger"
    using that num_pages_pos [of xs]
    by (simp add: comments_page_def paginator_page_in_range)
  have last: "comments_page xs p = take 10 (drop ((num_pages xs 10 - 1) * 10) xs)"
    if "paginator_page xs 10 p = Inl EmptyPage"
    using that num_pages_pos [of xs]
    by (simp add: comments_page_def paginator_page_in_range)
  show ?thesis
  proof (cases "paginator_page xs 10 p")
    case (Inl e)
    then show ?thesis
      using first last num_pages_pos [of xs]
      by (cases e) (auto intro: exI [of _ 0] exI [of _ "num_pages xs 10 - 1"])
  next
    case (Inr page)
    then obtain n where n: "p = PageNumber n" "1 \<le> n" "n \<le> int (num_pages xs 10)"
      by (auto simp: paginator_page_def split: page_param.splits if_splits)
    then have "comments_page xs p = take 10 (drop ((nat n - 1) * 10) xs)"
      by (simp add: comments_page_def paginator_page_in_range)
    moreover from n have "nat n - 1 < num_pages xs 10" by linarith
    ultimately show ?thesis by blast
  qed
qed

lemma comments_page_covers:
  assumes "i < length xs"
  shows "comments_page xs (PageNumber (int (i div 10 + 1))) ! (i mod 10) = xs ! i"
proof -
  from assms have ne: "xs \<noteq> []" by auto
  then have "num_pages xs 10 = (length xs + 9) div 10"
    by (simp add: num_pages_def)
  with assms have le: "i div 10 + 1 \<le> num_pages xs 10"
    by simp
  define n where "n = int (i div 10 + 1)"
  have n1: "1 \<le> n" and n2: "n \<le> int (num_pages xs 10)" and n3: "nat n - 1 = i div 10"
    using le unfolding n_def by linarith+
  have "comments_page xs (PageNumber n) = take 10 (drop ((nat n - 1) * 10) xs)"
    by (simp add: comments_page_def paginator_page_in_range [OF n1 n2])
  moreover have "i div 10 * 10 \<le> length xs"
    using assms by simp
  moreover have "i div 10 * 10 + i mod 10 = i"
    by simp
  ultimately have "comments_page xs (PageNumber n) ! (i mod 10) = xs ! i"
    unfolding n3 by (simp add: nth_drop)
  then show ?thesis
    unfolding n_def .
qed

lemma sorted_wrt_take_drop: "sorted_wrt P xs \<Longrightarrow> sorted_wrt P (take n (drop m xs))"
  by (simp add: sorted_wrt_take sorted_wrt_drop)


text \<open>
  Claim C9.  A GET request for an existing post renders the page; its comments are the
  requested page of the top-level listing: a slice of at most ten consecutive entries,
  all of them comments of that post without a parent, newest first.  The listing holds
  exactly the comments of the post without a parent (the same set, the same number),
  newest first, and every entry of the listing is on the page of its position.  This holds
  for every order in which the store returns comments with equal time stamps.
\<close>

theorem top_level_listing:
  assumes "request_method request = GET" and "get_blog d k \<noteq> None" and "unique_together (ratings d)"
  shows "\<exists>ctx. blog_detail request k d = (d, [], RenderDetail ctx) \<and>
           ctx_comments ctx
             = comments_page (top_level_comments (store_order request) d k) (comment_page request) \<and>
           (\<exists>i < num_pages (top_level_comments (store_order request) d k) 10.
              ctx_comments ctx = take 10 (drop (i * 10) (top_level_comments (store_order request) d k))) \<and>
           set (ctx_comments ctx) \<subseteq> {c \<in> set (comments d). blog c = k \<and> parent_comment c = None} \<and>
           sorted_wrt (\<lambda>x y. created_at y \<le> created_at x) (ctx_comments ctx) \<and>
           length (ctx_comments ctx) \<le> 10 \<and>
           set (top_level_comments (store_order request) d k)
             = {c \<in> set (comments d). blog c = k \<and> parent_comment c = None} \<and>
           length (top_level_comments (store_order request) d k)
             = length (filter (\<lambda>c. blog c = k \<and> parent_comment c = None) (comments d)) \<and>
           sorted_wrt (\<lambda>x y. created_at y \<le> created_at x) (top_level_comments (store_order request) d k) \<and>
           (\<forall>i < length (top_level_comments (store_order request) d k).
              comments_page (top_level_comments (store_order request) d k)
                  (PageNumber (int (i div 10 + 1))) ! (i mod 10)
                = top_level_comments (store_order request) d k ! i)"
proof -
  let ?top = "top_level_comments (store_order request) d k"
  let ?page = "comments_page ?top (comment_page request)"
  from assms(2) obtain b where b: "get_blog d k = Some b" by blast
  then have pk: "pk b = k" by (rule get_blog_pk)
  have g: "\<exists>r. (case req_user request of None \<Rightarrow> Inr None | Some u \<Rightarrow> get_rating d (uid u) (pk b)) = Inr r"
    using get_rating_unique [OF assms(3)] by (cases "req_user request") auto
  then obtain r where r: "(case req_user request of None \<Rightarrow> Inr None
                           | Some u \<Rightarrow> get_rating d (uid u) (pk b)) = Inr r" by blast
  have c: "comment_submission request b d = (None, [])"
    using assms(1) by (simp add: comment_submission_def)
  have s: "rating_submission request b d = None"
    using assms(1) by (simp add: rating_submission_def split: option.splits)
  have render: "\<exists>ctx. blog_detail request k d = (d, [], RenderDetail ctx) \<and> ctx_comments ctx = ?page"
    by (simp add: blog_detail_def b r c s pk)
  from comments_page_slice [of ?top "comment_page request"]
  obtain i where i: "i < num_pages ?top 10" "?page = take 10 (drop (i * 10) ?top)"
    by blast
  have top_set: "set ?top = {c \<in> set (comments d). blog c = k \<and> parent_comment c = None}"
    by (rule set_top_level_comments)
  have sub: "set ?page \<subseteq> {c \<in> set (comments d). blog c = k \<and> parent_comment c = None}"
    using set_take_subset [of 10 "drop (i * 10) ?top"] set_drop_subset [of "i * 10" ?top]
    unfolding i(2) top_set [symmetric] by blast
  have sorted_top: "sorted_wrt (\<lambda>x y. created_at y \<le> created_at x) ?top"
    by (simp add: top_level_comments_def sorted_order_by_created_desc)
  have sorted_page: "sorted_wrt (\<lambda>x y. created_at y \<le> created_at x) ?page"
    unfolding i(2) using sorted_top by (rule sorted_wrt_take_drop)
  have len: "length ?page \<le> 10"
    unfolding i(2) by simp
  have cover: "\<forall>j < length ?top.
      comments_page ?top (PageNumber (int (j div 10 + 1))) ! (j mod 10) = ?top ! j"
    using comments_page_covers by blast
  from render obtain ctx where ctx: "blog_detail request k d = (d, [], RenderDetail ctx)"
      "ctx_comments ctx = ?page"
    by blast
  show ?thesis
    apply (rule exI [of _ ctx])
    unfolding ctx(2)
    using ctx(1) i sub sorted_page len top_set
      length_top_level_comments [of "store_order request" d k] sorted_top cover
    by blast
qed

lemmas listing_eval =
  page_view_def thread_db_def tied_thread_def top_level_comments_def order_by_created_desc_def
  comments_page_def paginator_page_def num_pages_def by_id_def by_id_reversed_def

text \<open>
  Post 1 of the thread with a tie: the reply (comment 2) and the comment of post 2 are left
  out, the older comment 1 comes last, and the comments 4 and 5 of equal time stamp come in
  the one or the other order, as the store chooses.
\<close>

theorem top_level_listing_witness:
  "(\<exists>ctx. blog_detail ((page_view None PageAbsent)\<lparr>store_order := by_id\<rparr>) 1 tied_thread
            = (tied_thread, [], RenderDetail ctx) \<and>
          map comment_id (ctx_comments ctx) = [5, 4, 1] \<and> map created_at (ctx_comments ctx) = [8, 8, 5]) \<and>
   (\<exists>ctx. blog_detail ((page_view None PageAbsent)\<lparr>store_order := by_id_reversed\<rparr>) 1 tied_thread
            = (tied_thread, [], RenderDetail ctx) \<and>
          map comment_id (ctx_comments ctx) = [4, 5, 1] \<and> map created_at (ctx_comments ctx) = [8, 8, 5])"
proof -
  let ?r1 = "(page_view None PageAbsent)\<lparr>store_order := by_id\<rparr>"
  let ?r2 = "(page_view None PageAbsent)\<lparr>store_order := by_id_reversed\<rparr>"
  have h1: "request_method ?r1 = GET" "get_blog tied_thread 1 \<noteq> None" "unique_together (ratings tied_thread)"
    and h2: "request_method ?r2 = GET"
    by (simp_all add: detail_eval listing_eval)
  have p1: "map comment_id (comments_page (top_level_comments (store_order ?r1) tied_thread 1) (comment_page ?r1))
              = [5, 4, 1]"
      "map created_at (comments_page (top_level_comments (store_order ?r1) tied_thread 1) (comment_page ?r1))
              = [8, 8, 5]"
    by (simp_all add: detail_eval listing_eval)
  have p2: "map comment_id (comments_page (top_level_comments (store_order ?r2) tied_thread 1) (comment_page ?r2))
              = [4, 5, 1]"
      "map created_at (comments_page (top_level_comments (store_order ?r2) tied_thread 1) (comment_page ?r2))
              = [8, 8, 5]"
    by (simp_all add: detail_eval listing_eval)
  from top_level_listing [OF h1]
  obtain c1 where c1: "blog_detail ?r1 1 tied_thread = (tied_thread, [], RenderDetail c1)"
      "ctx_comments c1 = comments_page (top_level_comments (store_order ?r1) tied_thread 1) (comment_page ?r1)"
    by blast
  from top_level_listing [OF h2 h1(2,3)]
  obtain c2 where c2: "blog_detail ?r2 1 tied_thread = (tied_thread, [], RenderDetail c2)"
      "ctx_comments c2 = comments_page (top_level_comments (store_order ?r2) tied_thread 1) (comment_page ?r2)"
    by blast
  have a: "\<exists>ctx. blog_detail ?r1 1 tied_thread = (tied_thread, [], RenderDetail ctx) \<and>
          map comment_id (ctx_comments ctx) = [5, 4, 1] \<and> map created_at (ctx_comments ctx) = [8, 8, 5]"
    using c1(1) p1 unfolding c1(2) [symmetric] by (intro exI [of _ c1] conjI)
  have b: "\<exists>ctx. blog_detail ?r2 1 tied_thread = (tied_thread, [], RenderDetail ctx) \<and>
          map comment_id (ctx_comments ctx) = [4, 5, 1] \<and> map created_at (ctx_comments ctx) = [8, 8, 5]"
    using c2(1) p2 unfolding c2(2) [symmetric] by (intro exI [of _ c2] conjI)
  from a b show ?thesis by (rule conjI)
qed

section \<open>Properties of deletion\<close>














end
